theory Spec2Isabelle
  imports Main "HOL-Library.AList" "HOL-Library.Char_ord" "HOL-Library.List_Lexorder"
begin

section \<open>Proxmox VE client: the authenticated HTTP core\<close>

text \<open>
  A shallow embedding of \<^verbatim>\<open>proxmox/client.go\<close>, \<^verbatim>\<open>proxmox/vm.go\<close> and of the
  configuration types. Go strings are byte strings (\<^typ>\<open>string\<close>); a Go \<^verbatim>\<open>int\<close> is an
  \<^typ>\<open>int\<close> (no arithmetic is done on one); a Go map that the code ranges over is an
  association list whose order is one possible iteration order. The two mutexes of the
  client are not modelled: every function below is one sequential call.
\<close>

subsection \<open>Pieces of the Go standard library the client calls\<close>

text \<open>\<^verbatim>\<open>strings.TrimRight(s, "/")\<close>.\<close>

definition trimRightSlash :: "string \<Rightarrow> string" where
  "trimRightSlash s = rev (dropWhile (\<lambda>c. c = CHR ''/'') (rev s))"

text \<open>\<^verbatim>\<open>strconv.Itoa\<close> and the verb \<^verbatim>\<open>%d\<close>.\<close>

definition digit_char :: "nat \<Rightarrow> char" where
  "digit_char d = char_of (of_char CHR ''0'' + d)"

function nat_dec :: "nat \<Rightarrow> string" where
  "nat_dec n = (if n < 10 then [digit_char n] else nat_dec (n div 10) @ [digit_char (n mod 10)])"
  by pat_completeness auto
termination
  by (relation "measure id") auto

definition itoa :: "int \<Rightarrow> string" where
  "itoa i = (if i < 0 then CHR ''-'' # nat_dec (nat (- i)) else nat_dec (nat i))"

text \<open>
  \<^verbatim>\<open>net/url\<close>: \<^verbatim>\<open>shouldEscape\<close> and \<^verbatim>\<open>escape\<close> for the three modes the client reaches,
  \<^verbatim>\<open>encodePathSegment\<close> (through \<^verbatim>\<open>url.PathEscape\<close>), \<^verbatim>\<open>encodePath\<close> and
  \<^verbatim>\<open>encodeHost\<close> (through \<^verbatim>\<open>URL.String\<close>).
\<close>

datatype encoding = encodePath | encodePathSegment | encodeHost

definition is_alnum :: "char \<Rightarrow> bool" where
  "is_alnum c \<longleftrightarrow> (CHR ''a'' \<le> c \<and> c \<le> CHR ''z'') \<or> (CHR ''A'' \<le> c \<and> c \<le> CHR ''Z'')
     \<or> (CHR ''0'' \<le> c \<and> c \<le> CHR ''9'')"

definition shouldEscape :: "char \<Rightarrow> encoding \<Rightarrow> bool" where
  "shouldEscape c mode =
     (if is_alnum c then False
      else if mode = encodeHost \<and> c \<in> set (CHR 0x27 # CHR 0x22 # ''!$&()*+,;=:[]<>'') then False
      else if c \<in> set ''-_.~'' then False
      else if c \<in> set ''$&+,/:;=?@'' then
        (case mode of
           encodePath \<Rightarrow> c = CHR ''?''
         | encodePathSegment \<Rightarrow> c = CHR ''/'' \<or> c = CHR '';'' \<or> c = CHR '','' \<or> c = CHR ''?''
         | encodeHost \<Rightarrow> True)
      else True)"

definition upperhex :: "nat \<Rightarrow> char" where
  "upperhex n = ''0123456789ABCDEF'' ! (n mod 16)"

definition escape_byte :: "encoding \<Rightarrow> char \<Rightarrow> string" where
  "escape_byte mode c =
     (if shouldEscape c mode
      then [CHR ''%'', upperhex (of_char c div 16), upperhex (of_char c mod 16)]
      else [c])"

definition escape :: "string \<Rightarrow> encoding \<Rightarrow> string" where
  "escape s mode = concat (map (escape_byte mode) s)"

definition PathEscape :: "string \<Rightarrow> string" where
  "PathEscape s = escape s encodePathSegment"

text \<open>
  A \<^verbatim>\<open>*url.URL\<close> with a scheme, a host and a path; URLs with an opaque part, user
  information, a query, a fragment or a non-default \<^verbatim>\<open>RawPath\<close> are not represented.
  \<^verbatim>\<open>URL.String\<close> on such a URL writes the scheme, \<^verbatim>\<open>//\<close>, the escaped host and the
  escaped path, with a slash put before a relative path that follows a host, and
  \<^verbatim>\<open>./\<close> before a first segment with a colon when nothing precedes it.
\<close>

record URL =
  Scheme :: string
  Host :: string
  Path :: string

definition EscapedPath :: "URL \<Rightarrow> string" where
  "EscapedPath u = (if Path u = ''*'' then ''*'' else escape (Path u) encodePath)"

definition url_String :: "URL \<Rightarrow> string" where
  "url_String u =
     (let buf = (if Scheme u \<noteq> [] then Scheme u @ '':'' else [])
                @ (if Scheme u \<noteq> [] \<or> Host u \<noteq> [] then
                     (if Host u \<noteq> [] \<or> Path u \<noteq> [] then ''//'' else [])
                     @ escape (Host u) encodeHost
                   else []);
          path = EscapedPath u;
          buf1 = buf @ (if path \<noteq> [] \<and> hd path \<noteq> CHR ''/'' \<and> Host u \<noteq> [] then ''/'' else []);
          buf2 = buf1 @ (if buf1 = [] \<and> CHR '':'' \<in> set (takeWhile (\<lambda>c. c \<noteq> CHR ''/'') path)
                         then ''./'' else [])
      in buf2 @ path)"

text \<open>
  \<^verbatim>\<open>http.Header\<close>: \<^verbatim>\<open>Set\<close> stores under the canonical form of the key
  (\<^verbatim>\<open>textproto.CanonicalMIMEHeaderKey\<close>), replacing what was there. The client only
  ever calls \<^verbatim>\<open>Set\<close> and \<^verbatim>\<open>AddCookie\<close>, so a header holds one value per key.
\<close>

definition validHeaderFieldByte :: "char \<Rightarrow> bool" where
  "validHeaderFieldByte c \<longleftrightarrow> is_alnum c \<or> c \<in> set (CHR 0x27 # CHR 0x60 # ''!#$%&*+-.^_|~'')"

definition to_upper :: "char \<Rightarrow> char" where
  "to_upper c = (if CHR ''a'' \<le> c \<and> c \<le> CHR ''z'' then char_of (of_char c - (32::nat)) else c)"

definition to_lower :: "char \<Rightarrow> char" where
  "to_lower c = (if CHR ''A'' \<le> c \<and> c \<le> CHR ''Z'' then char_of (of_char c + (32::nat)) else c)"

fun canon_from :: "bool \<Rightarrow> string \<Rightarrow> string" where
  "canon_from upper [] = []"
| "canon_from upper (c # cs) =
     (let c' = (if upper then to_upper c else to_lower c) in c' # canon_from (c' = CHR ''-'') cs)"

definition CanonicalMIMEHeaderKey :: "string \<Rightarrow> string" where
  "CanonicalMIMEHeaderKey s = (if list_all validHeaderFieldByte s then canon_from True s else s)"

type_synonym Header = "(string \<times> string) list"

definition header_Set :: "string \<Rightarrow> string \<Rightarrow> Header \<Rightarrow> Header" where
  "header_Set k v h = AList.update (CanonicalMIMEHeaderKey k) v h"

definition header_Get :: "Header \<Rightarrow> string \<Rightarrow> string" where
  "header_Get h k = (case map_of h (CanonicalMIMEHeaderKey k) of None \<Rightarrow> [] | Some v \<Rightarrow> v)"

text \<open>
  An \<^verbatim>\<open>*http.Cookie\<close> as a request sees it: \<^verbatim>\<open>AddCookie\<close> writes the name and the
  value only, appending to a \<^verbatim>\<open>Cookie\<close> header that is already there. The cookies of
  the model are those \<^verbatim>\<open>resp.Cookies()\<close> parsed from a response, which the sanitising of
  \<^verbatim>\<open>AddCookie\<close> leaves as they are.
\<close>

record Cookie =
  CookieName :: string
  CookieValue :: string

definition AddCookie :: "Cookie \<Rightarrow> Header \<Rightarrow> Header" where
  "AddCookie ck h =
     (let s = CookieName ck @ ''='' @ CookieValue ck; c = header_Get h ''Cookie''
      in if c \<noteq> [] then header_Set ''Cookie'' (c @ ''; '' @ s) h else header_Set ''Cookie'' s h)"

text \<open>
  \<^verbatim>\<open>url.Values\<close> built with \<^verbatim>\<open>Set\<close> alone: one value per key. A request body made by
  \<^verbatim>\<open>strings.NewReader(params.Encode())\<close> is represented by the values it encodes.
\<close>

type_synonym Values = "(string \<times> string) list"

definition values_Set :: "string \<Rightarrow> string \<Rightarrow> Values \<Rightarrow> Values" where
  "values_Set k v vs = AList.update k v vs"

text \<open>
  Time: a \<^verbatim>\<open>time.Time\<close> is a number of nanoseconds since the Unix epoch, a
  \<^verbatim>\<open>time.Duration\<close> a signed 64-bit number of nanoseconds. \<^verbatim>\<open>time.Since(t)\<close> is
  \<^verbatim>\<open>now.Sub(t)\<close>, which saturates at the largest and smallest duration. The zero
  \<^verbatim>\<open>time.Time\<close> is 1 January of year 1.
\<close>

type_synonym Time = int
type_synonym Duration = int

definition maxDuration :: Duration where "maxDuration = 2 ^ 63 - 1"
definition minDuration :: Duration where "minDuration = - (2 ^ 63)"

definition time_Sub :: "Time \<Rightarrow> Time \<Rightarrow> Duration" where
  "time_Sub t u = (if t - u > maxDuration then maxDuration
                   else if t - u < minDuration then minDuration else t - u)"

definition zeroTime :: Time where "zeroTime = - 62135596800 * 1000000000"

definition Second :: Duration where "Second = 1000000000"
definition Hour :: Duration where "Hour = 3600 * Second"

text \<open>
  \<^verbatim>\<open>net/http\<close>: a request as the client builds it, a response as the client reads it
  (\<open>BodyErr\<close>: reading the body fails after the bytes of \<open>Body\<close>; \<open>Cookies\<close> is
  \<^verbatim>\<open>resp.Cookies()\<close>), and the environment of one call: \<^verbatim>\<open>url.Parse\<close>, the round trip
  of \<^verbatim>\<open>httpClient.Do\<close> (\<open>Inl\<close> is a transport error), the clock read by \<^verbatim>\<open>time.Since\<close>
  and the clock read by \<^verbatim>\<open>time.Now\<close> once a login response has been decoded.
\<close>

record Request =
  Method :: string
  Url :: string
  Header :: Header
  ReqBody :: "Values option"

record Response =
  StatusCode :: int
  Body :: string
  BodyErr :: bool
  Cookies :: "Cookie list"

record env =
  parse_url :: "string \<Rightarrow> URL option"
  round_trip :: "Request \<Rightarrow> string + Response"
  now :: Time
  now_after :: Time

text \<open>
  \<^verbatim>\<open>http.NewRequestWithContext\<close> fails when the method is not a token or the URL does
  not parse; an empty method means GET.
\<close>

definition validMethod :: "string \<Rightarrow> bool" where
  "validMethod m \<longleftrightarrow> m \<noteq> [] \<and> list_all validHeaderFieldByte m"

definition NewRequest :: "env \<Rightarrow> string \<Rightarrow> string \<Rightarrow> Values option \<Rightarrow> Request option" where
  "NewRequest E method url body =
     (let m = (if method = [] then ''GET'' else method)
      in if \<not> validMethod m then None
         else (case parse_url E url of
                 None \<Rightarrow> None
               | Some u \<Rightarrow> Some \<lparr>Method = m, Url = url, Header = [], ReqBody = body\<rparr>))"

text \<open>
  \<^verbatim>\<open>encoding/json\<close> as \<^verbatim>\<open>client.go\<close> calls it, one field per call site:
  \<^item> \<open>unmarshal_errors b\<close> is \<^verbatim>\<open>wrapper.Errors\<close> after
    \<^verbatim>\<open>json.Unmarshal(b, &wrapper)\<close>, whose error the code drops;
  \<^item> \<open>unmarshal_data b\<close> is \<^verbatim>\<open>wrapper.Data\<close> after \<^verbatim>\<open>json.Unmarshal(b, &wrapper)\<close>,
    \<open>None\<close> when that call returns an error;
  \<^item> \<open>unmarshal_out d t\<close> is \<^verbatim>\<open>json.Unmarshal(d, out)\<close> for a target holding \<open>t\<close>:
    whether it returned no error, and what the target holds afterwards;
  \<^item> \<open>decode_login b e\<close> is \<^verbatim>\<open>json.NewDecoder(resp.Body).Decode(&v)\<close> on a body of
    bytes \<open>b\<close> (\<open>e\<close>: reading fails after them): \<open>None\<close> for an error, else
    \<^verbatim>\<open>v.Data.Ticket\<close> and \<^verbatim>\<open>v.Data.CSRFPreventionToken\<close>.
\<close>

record ('e, 't) json_pkg =
  unmarshal_errors :: "string \<Rightarrow> 'e"
  unmarshal_data :: "string \<Rightarrow> string option"
  unmarshal_out :: "string \<Rightarrow> 't \<Rightarrow> bool \<times> 't"
  decode_login :: "string \<Rightarrow> bool \<Rightarrow> (string \<times> string) option"

subsection \<open>client.go\<close>

definition apiNodesPath :: string where "apiNodesPath = ''/api2/json/nodes''"
definition apiVmStartSubPath :: string where "apiVmStartSubPath = ''/status/start''"
definition apiVmStopSubPath :: string where "apiVmStopSubPath = ''/status/stop''"

text \<open>
  The errors the client returns, one constructor per place that makes one. \<open>APIError\<close>
  is the struct of that name: the status and the \<^verbatim>\<open>Errors\<close> map.
\<close>

datatype 'e error =
    BaseURLRequired
  | InvalidBaseURL
  | NewRequestError
  | TransportError string
  | LoginRequestFailed string
  | LoginFailed int string
  | LoginDecodeError
  | ReadBodyError
  | APIError int 'e
  | InvalidJSONResponse
  | DecodeDataError
  | ConfigNil
  | InvalidVMID int
  | ListNewRequestError
  | ListRequestError string
  | ListUnexpectedStatus int string
  | ListDecodeError

datatype AuthMethod = AuthPassword | AuthToken

record Client =
  baseURL :: URL
  authMethod :: AuthMethod
  username :: string
  password :: string
  Timeout :: Duration
  InsecureSkipVerify :: bool
  authTicket :: string
  csrfToken :: string
  authCookie :: "Cookie option"
  lastLogin :: Time
  loginExpiry :: Duration

definition newClient ::
  "env \<Rightarrow> string \<Rightarrow> string \<Rightarrow> string \<Rightarrow> AuthMethod \<Rightarrow> bool \<Rightarrow> 'e error + Client" where
  "newClient E base user pass method ignoreTlsError =
     (if base = [] then Inl BaseURLRequired
      else (case parse_url E (trimRightSlash base) of
              None \<Rightarrow> Inl InvalidBaseURL
            | Some u \<Rightarrow>
                Inr \<lparr>baseURL = u, authMethod = method, username = user, password = pass,
                     Timeout = 60 * Second, InsecureSkipVerify = ignoreTlsError,
                     authTicket = [], csrfToken = [], authCookie = None,
                     lastLogin = zeroTime, loginExpiry = 1 * Hour\<rparr>))"

definition NewClient ::
  "env \<Rightarrow> string \<Rightarrow> string \<Rightarrow> string \<Rightarrow> bool \<Rightarrow> bool \<Rightarrow> 'e error + Client" where
  "NewClient E base user pass tlsCfg useToken =
     (let authMethod = (if useToken then AuthToken else AuthPassword)
      in newClient E base user pass authMethod True)"

definition NewClientPassword ::
  "env \<Rightarrow> string \<Rightarrow> string \<Rightarrow> string \<Rightarrow> bool \<Rightarrow> 'e error + Client" where
  "NewClientPassword E base user pass tlsCfg = newClient E base user pass AuthPassword True"


text \<open>
  Every method of the client returns its result, the client afterwards and the requests
  it handed to \<^verbatim>\<open>httpClient.Do\<close>, in order.
\<close>

text \<open>The request \<^verbatim>\<open>Login\<close> builds, lines 126 to 137.\<close>

definition loginRequest :: "env \<Rightarrow> Client \<Rightarrow> Request option" where
  "loginRequest E c =
     (let loginURL = (baseURL c)\<lparr>Path := ''/api2/json/access/ticket''\<rparr>;
          form = values_Set ''password'' (password c) (values_Set ''username'' (username c) [])
      in case NewRequest E ''POST'' (url_String loginURL) (Some form) of
           None \<Rightarrow> None
         | Some req \<Rightarrow>
             Some (req\<lparr>Header :=
                         header_Set ''Content-Type'' ''application/x-www-form-urlencoded'' (Header req)\<rparr>))"

definition Login ::
  "('e, 't) json_pkg \<Rightarrow> env \<Rightarrow> Client \<Rightarrow> 'e error option \<times> Client \<times> Request list" where
  "Login J E c =
     (if authMethod c = AuthToken then (None, c, [])
      else if time_Sub (now E) (lastLogin c) < loginExpiry c \<and> authTicket c \<noteq> [] then (None, c, [])
      else
        (case loginRequest E c of
           None \<Rightarrow> (Some NewRequestError, c, [])
         | Some req \<Rightarrow>
             (case round_trip E req of
                Inl e \<Rightarrow> (Some (LoginRequestFailed e), c, [req])
              | Inr resp \<Rightarrow>
                  if StatusCode resp \<noteq> 200
                  then (Some (LoginFailed (StatusCode resp) (take 512 (Body resp))), c, [req])
                  else (case decode_login J (Body resp) (BodyErr resp) of
                          None \<Rightarrow> (Some LoginDecodeError, c, [req])
                        | Some (ticket, csrf) \<Rightarrow>
                            (let ck = find (\<lambda>k. CookieName k = ''PVEAuthCookie'') (Cookies resp)
                             in (None,
                                 c\<lparr>authTicket := ticket, csrfToken := csrf, authCookie := ck,
                                   lastLogin := now_after E\<rparr>,
                                 [req]))))))"

text \<open>The authentication step of \<^verbatim>\<open>do\<close>, lines 187 to 205.\<close>

definition attach_auth :: "Client \<Rightarrow> bool \<Rightarrow> Header \<Rightarrow> Header" where
  "attach_auth c csrf h =
     (if authMethod c = AuthToken
      then header_Set ''Authorization'' (''PVEAPIToken='' @ username c @ ''='' @ password c) h
      else
        (let h1 = (if csrf \<and> csrfToken c \<noteq> [] then header_Set ''CSRFPreventionToken'' (csrfToken c) h
                   else h)
         in case authCookie c of
              Some ck \<Rightarrow> AddCookie ck h1
            | None \<Rightarrow>
                if authTicket c \<noteq> [] then header_Set ''Cookie'' (''PVEAuthCookie='' @ authTicket c) h1
                else h1))"

text \<open>The unwrapping of a response by \<^verbatim>\<open>do\<close>, lines 218 to 247.\<close>

definition unwrap ::
  "('e, 't) json_pkg \<Rightarrow> Response \<Rightarrow> 't option \<Rightarrow> 'e error option \<times> 't option" where
  "unwrap J resp out =
     (if BodyErr resp then (Some ReadBodyError, out)
      else if StatusCode resp \<ge> 400
      then (Some (APIError (StatusCode resp) (unmarshal_errors J (Body resp))), out)
      else (case out of
              None \<Rightarrow> (None, out)
            | Some t \<Rightarrow>
                if length (Body resp) > 0 then
                  (case unmarshal_data J (Body resp) of
                     None \<Rightarrow> (Some InvalidJSONResponse, out)
                   | Some d \<Rightarrow>
                       if length d > 0 then
                         (case unmarshal_out J d t of
                            (ok, t') \<Rightarrow> (if ok then None else Some DecodeDataError, Some t'))
                       else (None, out))
                else (None, out)))"

text \<open>The request \<^verbatim>\<open>do\<close> builds, lines 179 to 210.\<close>

definition buildRequest ::
  "env \<Rightarrow> Client \<Rightarrow> string \<Rightarrow> string \<Rightarrow> Values option \<Rightarrow> (string \<times> string) list \<Rightarrow> bool
     \<Rightarrow> Request option" where
  "buildRequest E c method path body headers csrf =
     (let full = (baseURL c)\<lparr>Path := trimRightSlash (Path (baseURL c)) @ path\<rparr>
      in case NewRequest E method (url_String full) body of
           None \<Rightarrow> None
         | Some req \<Rightarrow>
             (let h1 = attach_auth c csrf (Header req);
                  h2 = header_Set ''Accept'' ''application/json'' h1;
                  h3 = fold (\<lambda>(k, v). header_Set k v) headers h2
              in Some (req\<lparr>Header := h3\<rparr>)))"

definition do ::
  "('e, 't) json_pkg \<Rightarrow> env \<Rightarrow> Client \<Rightarrow> string \<Rightarrow> string \<Rightarrow> Values option \<Rightarrow> (string \<times> string) list
     \<Rightarrow> bool \<Rightarrow> 't option \<Rightarrow> ('e error option \<times> 't option) \<times> Client \<times> Request list" where
  "do J E c method path body headers csrf out =
     (case buildRequest E c method path body headers csrf of
        None \<Rightarrow> ((Some NewRequestError, out), c, [])
      | Some req \<Rightarrow>
          (case round_trip E req of
             Inl e \<Rightarrow> ((Some (TransportError e), out), c, [req])
           | Inr resp \<Rightarrow> (unwrap J resp out, c, [req])))"

subsection \<open>A model of encoding/json\<close>

text \<open>
  The functions of \<^typ>\<open>('e, 't) json_pkg\<close> as the Go library computes them, for the
  decode target the resource operations use, a \<^verbatim>\<open>map[string]any\<close>. A document is
  scanned by recursive descent (the grammar of RFC 8259, as the library's scanner accepts
  it); the first argument of \<open>parse_value\<close> bounds the number of nested calls, and
  \<open>json_parse\<close> starts it above the length of the text, each call consuming a byte.
  Members of an object are kept with the bytes of their value, which is what a
  \<^verbatim>\<open>json.RawMessage\<close> field receives. Not modelled: the library's limit of 10000 on
  nesting, and the replacing of invalid UTF-8 inside strings.
\<close>

datatype json = JNull | JBool bool | JNumber string | JString string
  | JArray "json list" | JObject "(string \<times> json) list"

definition is_ws :: "char \<Rightarrow> bool" where
  "is_ws c \<longleftrightarrow> c = CHR '' '' \<or> c = CHR 0x09 \<or> c = CHR 0x0D \<or> c = CHR 0x0A"

definition skip_ws :: "string \<Rightarrow> string" where
  "skip_ws s = dropWhile is_ws s"

definition is_digit :: "char \<Rightarrow> bool" where
  "is_digit c \<longleftrightarrow> CHR ''0'' \<le> c \<and> c \<le> CHR ''9''"

definition scan_int :: "string \<Rightarrow> (string \<times> string) option" where
  "scan_int s =
     (case s of
        [] \<Rightarrow> None
      | c # r \<Rightarrow>
          if c = CHR ''0'' then Some ([c], r)
          else if CHR ''1'' \<le> c \<and> c \<le> CHR ''9''
          then Some (c # takeWhile is_digit r, dropWhile is_digit r)
          else None)"

definition scan_frac :: "string \<Rightarrow> (string \<times> string) option" where
  "scan_frac s =
     (case s of
        [] \<Rightarrow> Some ([], s)
      | c # r \<Rightarrow>
          if c = CHR ''.'' then
            (if takeWhile is_digit r = [] then None
             else Some (c # takeWhile is_digit r, dropWhile is_digit r))
          else Some ([], s))"

definition scan_exp :: "string \<Rightarrow> (string \<times> string) option" where
  "scan_exp s =
     (case s of
        [] \<Rightarrow> Some ([], s)
      | c # r \<Rightarrow>
          if c = CHR ''e'' \<or> c = CHR ''E'' then
            (let sign = (case r of [] \<Rightarrow> [] | d # _ \<Rightarrow> if d = CHR ''+'' \<or> d = CHR ''-'' then [d] else []);
                 r' = drop (length sign) r
             in if takeWhile is_digit r' = [] then None
                else Some (c # sign @ takeWhile is_digit r', dropWhile is_digit r'))
          else Some ([], s))"

definition scan_number :: "string \<Rightarrow> (string \<times> string) option" where
  "scan_number s =
     (let neg = (case s of [] \<Rightarrow> [] | c # _ \<Rightarrow> if c = CHR ''-'' then [c] else [])
      in case scan_int (drop (length neg) s) of
           None \<Rightarrow> None
         | Some (i, r1) \<Rightarrow>
             (case scan_frac r1 of
                None \<Rightarrow> None
              | Some (f, r2) \<Rightarrow>
                  (case scan_exp r2 of
                     None \<Rightarrow> None
                   | Some (e, r3) \<Rightarrow> Some (neg @ i @ f @ e, r3))))"

definition hex_val :: "char \<Rightarrow> nat option" where
  "hex_val c =
     (if CHR ''0'' \<le> c \<and> c \<le> CHR ''9'' then Some (of_char c - of_char CHR ''0'')
      else if CHR ''a'' \<le> c \<and> c \<le> CHR ''f'' then Some (of_char c - of_char CHR ''a'' + 10)
      else if CHR ''A'' \<le> c \<and> c \<le> CHR ''F'' then Some (of_char c - of_char CHR ''A'' + 10)
      else None)"

definition getu4 :: "string \<Rightarrow> nat option" where
  "getu4 s =
     (case s of
        b # u # h1 # h2 # h3 # h4 # _ \<Rightarrow>
          if b = CHR 0x5C \<and> u = CHR ''u'' then
            (case (hex_val h1, hex_val h2, hex_val h3, hex_val h4) of
               (Some a, Some b, Some c, Some d) \<Rightarrow> Some (((a * 16 + b) * 16 + c) * 16 + d)
             | _ \<Rightarrow> None)
          else None
      | _ \<Rightarrow> None)"

definition EncodeRune :: "nat \<Rightarrow> string" where
  "EncodeRune r =
     (if r < 0x80 then [char_of r]
      else if r < 0x800 then [char_of (0xC0 + r div 64), char_of (0x80 + r mod 64)]
      else if r < 0x10000 then
        [char_of (0xE0 + r div 4096), char_of (0x80 + r div 64 mod 64), char_of (0x80 + r mod 64)]
      else [char_of (0xF0 + r div 262144), char_of (0x80 + r div 4096 mod 64),
            char_of (0x80 + r div 64 mod 64), char_of (0x80 + r mod 64)])"

definition simple_escape :: "char \<Rightarrow> char option" where
  "simple_escape c =
     (if c = CHR 0x22 \<or> c = CHR 0x5C \<or> c = CHR ''/'' then Some c
      else if c = CHR ''b'' then Some (CHR 0x08)
      else if c = CHR ''f'' then Some (CHR 0x0C)
      else if c = CHR ''n'' then Some (CHR 0x0A)
      else if c = CHR ''r'' then Some (CHR 0x0D)
      else if c = CHR ''t'' then Some (CHR 0x09)
      else None)"

fun scan_string :: "string \<Rightarrow> (string \<times> string) option" where
  "scan_string [] = None"
| "scan_string (c # cs) =
     (if c = CHR 0x22 then Some ([], cs)
      else if c = CHR 0x5C then
        (case cs of
           [] \<Rightarrow> None
         | e # r \<Rightarrow>
             if e = CHR ''u'' then
               (case getu4 (c # cs) of
                  None \<Rightarrow> None
                | Some rr \<Rightarrow>
                    (case r of
                       h1 # h2 # h3 # h4 # r4 \<Rightarrow>
                         if 0xD800 \<le> rr \<and> rr < 0xE000 then
                           (case getu4 r4 of
                              None \<Rightarrow> map_option (\<lambda>(t, rest). (EncodeRune 0xFFFD @ t, rest)) (scan_string r4)
                            | Some rr1 \<Rightarrow>
                                if rr < 0xDC00 \<and> 0xDC00 \<le> rr1 \<and> rr1 < 0xE000 then
                                  (case r4 of
                                     b' # u' # g1 # g2 # g3 # g4 # r10 \<Rightarrow>
                                       map_option
                                         (\<lambda>(t, rest).
                                            (EncodeRune ((rr - 0xD800) * 1024 + (rr1 - 0xDC00) + 0x10000) @ t, rest))
                                         (scan_string r10)
                                   | _ \<Rightarrow> None)
                                else map_option (\<lambda>(t, rest). (EncodeRune 0xFFFD @ t, rest)) (scan_string r4))
                         else map_option (\<lambda>(t, rest). (EncodeRune rr @ t, rest)) (scan_string r4)
                     | _ \<Rightarrow> None))
             else
               (case simple_escape e of
                  None \<Rightarrow> None
                | Some x \<Rightarrow> map_option (\<lambda>(t, rest). (x # t, rest)) (scan_string r)))
      else if c < CHR 0x20 then None
      else map_option (\<lambda>(t, rest). (c # t, rest)) (scan_string cs))"


fun parse_value :: "nat \<Rightarrow> string \<Rightarrow> (json \<times> string) option"
  and parse_members :: "nat \<Rightarrow> string \<Rightarrow> ((string \<times> string \<times> json) list \<times> string) option"
  and parse_elements :: "nat \<Rightarrow> string \<Rightarrow> (json list \<times> string) option" where
  "parse_value 0 s = None"
| "parse_value (Suc n) s =
     (case s of
        [] \<Rightarrow> None
      | c # r \<Rightarrow>
          if c = CHR ''{'' then
            (case skip_ws r of
               [] \<Rightarrow> None
             | d # r' \<Rightarrow>
                 if d = CHR ''}'' then Some (JObject [], r')
                 else map_option (\<lambda>(ms, rest). (JObject (map (\<lambda>(k, raw, v). (k, v)) ms), rest))
                        (parse_members n (d # r')))
          else if c = CHR ''['' then
            (case skip_ws r of
               [] \<Rightarrow> None
             | d # r' \<Rightarrow>
                 if d = CHR '']'' then Some (JArray [], r')
                 else map_option (\<lambda>(vs, rest). (JArray vs, rest)) (parse_elements n (d # r')))
          else if c = CHR 0x22 then map_option (\<lambda>(t, rest). (JString t, rest)) (scan_string r)
          else if c = CHR ''-'' \<or> is_digit c then
            map_option (\<lambda>(t, rest). (JNumber t, rest)) (scan_number s)
          else if take 4 s = ''null'' then Some (JNull, drop 4 s)
          else if take 4 s = ''true'' then Some (JBool True, drop 4 s)
          else if take 5 s = ''false'' then Some (JBool False, drop 5 s)
          else None)"
| "parse_members 0 s = None"
| "parse_members (Suc n) s =
     (case s of
        [] \<Rightarrow> None
      | q # r \<Rightarrow>
          if q \<noteq> CHR 0x22 then None
          else
            (case scan_string r of
               None \<Rightarrow> None
             | Some (k, r1) \<Rightarrow>
                 (case skip_ws r1 of
                    [] \<Rightarrow> None
                  | col # r2 \<Rightarrow>
                      if col \<noteq> CHR '':'' then None
                      else
                        (let sv = skip_ws r2
                         in case parse_value n sv of
                              None \<Rightarrow> None
                            | Some (v, r3) \<Rightarrow>
                                (let raw = take (length sv - length r3) sv
                                 in case skip_ws r3 of
                                      [] \<Rightarrow> None
                                    | e # r4 \<Rightarrow>
                                        if e = CHR ''}'' then Some ([(k, raw, v)], r4)
                                        else if e = CHR '','' then
                                          map_option (\<lambda>(ms, rest). ((k, raw, v) # ms, rest))
                                            (parse_members n (skip_ws r4))
                                        else None)))))"
| "parse_elements 0 s = None"
| "parse_elements (Suc n) s =
     (case parse_value n s of
        None \<Rightarrow> None
      | Some (v, r1) \<Rightarrow>
          (case skip_ws r1 of
             [] \<Rightarrow> None
           | e # r2 \<Rightarrow>
               if e = CHR '']'' then Some ([v], r2)
               else if e = CHR '','' then
                 map_option (\<lambda>(vs, rest). (v # vs, rest)) (parse_elements n (skip_ws r2))
               else None))"

definition json_parse :: "string \<Rightarrow> json option" where
  "json_parse s =
     (case parse_value (Suc (length s)) (skip_ws s) of
        None \<Rightarrow> None
      | Some (v, rest) \<Rightarrow> if skip_ws rest = [] then Some v else None)"

definition top_members :: "string \<Rightarrow> (string \<times> string \<times> json) list option" where
  "top_members s =
     (case skip_ws s of
        [] \<Rightarrow> None
      | c # r \<Rightarrow>
          if c \<noteq> CHR ''{'' then None
          else
            (case skip_ws r of
               [] \<Rightarrow> None
             | d # r' \<Rightarrow>
                 if d = CHR ''}'' then (if skip_ws r' = [] then Some [] else None)
                 else
                   (case parse_members (length s) (d # r') of
                      None \<Rightarrow> None
                    | Some (ms, rest) \<Rightarrow> if skip_ws rest = [] then Some ms else None)))"

text \<open>
  A Go value of type \<^verbatim>\<open>any\<close>: what \<^verbatim>\<open>encoding/json\<close> stores in one (\<^verbatim>\<open>nil\<close>,
  \<^verbatim>\<open>bool\<close>, \<^verbatim>\<open>float64\<close>, \<^verbatim>\<open>string\<close>, \<^verbatim>\<open>[]any\<close>, \<^verbatim>\<open>map[string]any\<close>), the
  two further types \<^verbatim>\<open>toJSONNumber\<close> looks for (\<^verbatim>\<open>int\<close>, \<^verbatim>\<open>json.Number\<close>), and
  \<open>AOther\<close> for a value of any other type, carrying what the verb \<^verbatim>\<open>%v\<close> prints for it.
  Floating-point numbers are a type parameter, with the three library functions that
  make or print one.
\<close>

datatype 'f any = ANil | ABool bool | AFloat64 'f | AString string | AInt int | ANumber string
  | ASlice "'f any list" | AMap "(string \<times> 'f any) list" | AOther string

type_synonym 'f gomap = "(string \<times> 'f any) list option"

record 'f strconv =
  ParseFloat :: "string \<Rightarrow> 'f option"
  fmt_g :: "'f \<Rightarrow> string"
  fmt_f0 :: "'f \<Rightarrow> string"

fun join_sp :: "string list \<Rightarrow> string" where
  "join_sp [] = []"
| "join_sp [x] = x"
| "join_sp (x # y # r) = x @ '' '' @ join_sp (y # r)"

text \<open>\<^verbatim>\<open>fmt.Sprintf("%v", v)\<close>; a map is printed with its keys sorted.\<close>

fun fmt_v :: "'f strconv \<Rightarrow> 'f any \<Rightarrow> string" where
  "fmt_v F ANil = ''<nil>''"
| "fmt_v F (ABool b) = (if b then ''true'' else ''false'')"
| "fmt_v F (AFloat64 f) = fmt_g F f"
| "fmt_v F (AString t) = t"
| "fmt_v F (AInt i) = itoa i"
| "fmt_v F (ANumber t) = t"
| "fmt_v F (ASlice xs) = ''['' @ join_sp (map (fmt_v F) xs) @ '']''"
| "fmt_v F (AMap ms) =
     ''map['' @ join_sp (map (\<lambda>(k, t). k @ '':'' @ t)
                          (sort_key fst (map (\<lambda>p. (fst p, fmt_v F (snd p))) ms))) @ '']''"
| "fmt_v F (AOther t) = t"

text \<open>
  What the library stores in an \<^verbatim>\<open>any\<close> for a JSON value; a number that
  \<^verbatim>\<open>strconv.ParseFloat\<close> rejects is stored as \<^verbatim>\<open>nil\<close> and makes the call return an
  error at its end (\<open>floats_ok\<close> is false). Storing an object into a map keeps the
  entries the map already has.
\<close>

fun to_any :: "'f strconv \<Rightarrow> json \<Rightarrow> 'f any" where
  "to_any F JNull = ANil"
| "to_any F (JBool b) = ABool b"
| "to_any F (JNumber l) = (case ParseFloat F l of None \<Rightarrow> ANil | Some f \<Rightarrow> AFloat64 f)"
| "to_any F (JString t) = AString t"
| "to_any F (JArray xs) = ASlice (map (to_any F) xs)"
| "to_any F (JObject ms) =
     AMap (fold (\<lambda>(k, a). AList.update k a) (map (\<lambda>p. (fst p, to_any F (snd p))) ms) [])"

fun floats_ok :: "'f strconv \<Rightarrow> json \<Rightarrow> bool" where
  "floats_ok F (JNumber l) = (ParseFloat F l \<noteq> None)"
| "floats_ok F (JArray xs) = list_all (floats_ok F) xs"
| "floats_ok F (JObject ms) = list_all (\<lambda>p. floats_ok F (snd p)) ms"
| "floats_ok F v = True"

definition store_object ::
  "'f strconv \<Rightarrow> (string \<times> json) list \<Rightarrow> (string \<times> 'f any) list \<Rightarrow> (string \<times> 'f any) list" where
  "store_object F ms m = fold (\<lambda>(k, v). AList.update k (to_any F v)) ms m"

text \<open>
  A key of a JSON object names a struct field when it equals the field's name or
  equals it after folding: ASCII letters to upper case, and the two non-ASCII runes
  that fold to an ASCII letter (U+017F to S, U+212A to K).
\<close>

fun foldName :: "string \<Rightarrow> string" where
  "foldName [] = []"
| "foldName (c # cs) =
     (if c = CHR 0xC5 then
        (case cs of
           [] \<Rightarrow> [c]
         | d # r \<Rightarrow> if d = CHR 0xBF then CHR ''S'' # foldName r else c # foldName (d # r))
      else if c = CHR 0xE2 then
        (case cs of
           d # e # r \<Rightarrow>
             if d = CHR 0x84 \<and> e = CHR 0xAA then CHR ''K'' # foldName r else c # foldName (d # e # r)
         | _ \<Rightarrow> c # foldName cs)
      else to_upper c # foldName cs)"

definition field_match :: "string \<Rightarrow> string \<Rightarrow> bool" where
  "field_match name key \<longleftrightarrow> key = name \<or> foldName key = foldName name"

text \<open>
  \<^verbatim>\<open>json.Unmarshal(body, &wrapper)\<close> for
  \<^verbatim>\<open>struct { Errors map[string]interface{} `json:"errors"` }\<close>: the field starts as the nil
  map (\<open>None\<close>); nothing is stored when the text is not valid JSON or is not an object; a
  member named \<^verbatim>\<open>errors\<close> sets the field to nil for \<^verbatim>\<open>null\<close>, fills the map for an
  object, and is a type error that stores nothing for anything else.
\<close>

definition errors_field :: "'f strconv \<Rightarrow> string \<times> json \<Rightarrow> 'f gomap \<Rightarrow> 'f gomap" where
  "errors_field F m cur =
     (if field_match ''errors'' (fst m) then
        (case snd m of
           JNull \<Rightarrow> None
         | JObject es \<Rightarrow> Some (store_object F es (case cur of None \<Rightarrow> [] | Some x \<Rightarrow> x))
         | _ \<Rightarrow> cur)
      else cur)"

definition go_unmarshal_errors :: "'f strconv \<Rightarrow> string \<Rightarrow> 'f gomap" where
  "go_unmarshal_errors F b =
     (case json_parse b of
        Some (JObject ms) \<Rightarrow> fold (errors_field F) ms None
      | _ \<Rightarrow> None)"

text \<open>
  \<^verbatim>\<open>json.Unmarshal(body, &wrapper)\<close> for
  \<^verbatim>\<open>struct { Data json.RawMessage `json:"data"` }\<close>: an error for text that is not valid
  JSON or is neither an object nor \<^verbatim>\<open>null\<close>; a member named \<^verbatim>\<open>data\<close> stores the
  bytes of its value, also when that value is \<^verbatim>\<open>null\<close>.
\<close>

definition go_unmarshal_data :: "string \<Rightarrow> string option" where
  "go_unmarshal_data b =
     (case json_parse b of
        None \<Rightarrow> None
      | Some JNull \<Rightarrow> Some []
      | Some (JObject _) \<Rightarrow>
          map_option (\<lambda>ms. fold (\<lambda>(k, raw, v) cur. if field_match ''data'' k then raw else cur) ms [])
            (top_members b)
      | Some _ \<Rightarrow> None)"

text \<open>
  \<^verbatim>\<open>json.Unmarshal(data, out)\<close> for \<^verbatim>\<open>out\<close> a \<^verbatim>\<open>*map[string]any\<close>: \<^verbatim>\<open>null\<close> sets
  the map to nil, an object is stored into the map (made first when it is nil), any
  other value is a type error that leaves the map as it was.
\<close>

definition store_value :: "'f strconv \<Rightarrow> json \<Rightarrow> 'f gomap \<Rightarrow> bool \<times> 'f gomap" where
  "store_value F v t =
     (case v of
        JNull \<Rightarrow> (True, None)
      | JObject ms \<Rightarrow>
          (list_all (\<lambda>p. floats_ok F (snd p)) ms,
           Some (store_object F ms (case t of None \<Rightarrow> [] | Some x \<Rightarrow> x)))
      | _ \<Rightarrow> (False, t))"

definition go_unmarshal_out :: "'f strconv \<Rightarrow> string \<Rightarrow> 'f gomap \<Rightarrow> bool \<times> 'f gomap" where
  "go_unmarshal_out F d t =
     (case json_parse d of
        None \<Rightarrow> (False, t)
      | Some v \<Rightarrow> store_value F v t)"

text \<open>
  \<^verbatim>\<open>json.NewDecoder(resp.Body).Decode(&v)\<close> for the login response: the decoder reads
  the first JSON value of the stream and does not look past the end of an object. The
  state of the two folds is the ticket, the CSRF token and whether no type error has
  been met.
\<close>

definition login_inner :: "string \<times> json \<Rightarrow> string \<times> string \<times> bool \<Rightarrow> string \<times> string \<times> bool" where
  "login_inner m st =
     (case st of (ticket, csrf, ok) \<Rightarrow>
        if field_match ''ticket'' (fst m) then
          (case snd m of JString t \<Rightarrow> (t, csrf, ok) | JNull \<Rightarrow> st | _ \<Rightarrow> (ticket, csrf, False))
        else if field_match ''CSRFPreventionToken'' (fst m) then
          (case snd m of JString t \<Rightarrow> (ticket, t, ok) | JNull \<Rightarrow> st | _ \<Rightarrow> (ticket, csrf, False))
        else st)"

definition login_data :: "string \<times> json \<Rightarrow> string \<times> string \<times> bool \<Rightarrow> string \<times> string \<times> bool" where
  "login_data m st =
     (case st of (ticket, csrf, ok) \<Rightarrow>
        if field_match ''data'' (fst m) then
          (case snd m of JNull \<Rightarrow> st | JObject fs \<Rightarrow> fold login_inner fs st | _ \<Rightarrow> (ticket, csrf, False))
        else st)"

definition go_decode_login :: "string \<Rightarrow> bool \<Rightarrow> (string \<times> string) option" where
  "go_decode_login b e =
     (let s = skip_ws b
      in case s of
           [] \<Rightarrow> None
         | c # _ \<Rightarrow>
             if c = CHR ''{'' then
               (case parse_value (Suc (length s)) s of
                  Some (JObject ms, rest) \<Rightarrow>
                    (case fold login_data ms ([], [], True) of
                       (ticket, csrf, ok) \<Rightarrow> if ok then Some (ticket, csrf) else None)
                | _ \<Rightarrow> None)
             else if take 4 s = ''null'' \<and> (case drop 4 s of [] \<Rightarrow> \<not> e | d # _ \<Rightarrow> is_ws d)
             then Some ([], [])
             else None)"

definition encoding_json :: "'f strconv \<Rightarrow> ('f gomap, 'f gomap) json_pkg" where
  "encoding_json F =
     \<lparr>unmarshal_errors = go_unmarshal_errors F, unmarshal_data = go_unmarshal_data,
      unmarshal_out = go_unmarshal_out F, decode_login = go_decode_login\<rparr>"

subsection \<open>vm.go and the configuration type\<close>

text \<open>
  \<^verbatim>\<open>ProxmoxQemuVmConfig\<close>; a \<^verbatim>\<open>json.Number\<close> is a string. \<open>Raw\<close> is ranged over and
  written by key only, so the nil map and the empty map are both the empty list.
\<close>

record ProxmoxQemuVmConfig =
  Name :: string
  Vmid :: string
  MemoryMB :: string
  Sockets :: string
  Cores :: string
  Description :: string
  Raw :: "(string \<times> string) list"

definition ToParams :: "ProxmoxQemuVmConfig \<Rightarrow> Values" where
  "ToParams cfg =
     (let p0 = [];
          p1 = (if Name cfg \<noteq> [] then values_Set ''name'' (Name cfg) p0 else p0);
          p2 = (if MemoryMB cfg \<noteq> [] then values_Set ''memory'' (MemoryMB cfg) p1 else p1);
          p3 = (if Sockets cfg \<noteq> [] then values_Set ''sockets'' (Sockets cfg) p2 else p2);
          p4 = (if Cores cfg \<noteq> [] then values_Set ''cores'' (Cores cfg) p3 else p3);
          p5 = (if Description cfg \<noteq> [] then values_Set ''description'' (Description cfg) p4 else p4)
      in fold (\<lambda>(k, v) p. if v \<noteq> [] then values_Set k v p else p) (Raw cfg) p5)"

definition toJSONNumber :: "'f strconv \<Rightarrow> 'f any \<Rightarrow> string" where
  "toJSONNumber F v =
     (case v of
        ANumber t \<Rightarrow> t
      | AInt t \<Rightarrow> itoa t
      | AFloat64 t \<Rightarrow> fmt_f0 F t
      | AString t \<Rightarrow> t
      | _ \<Rightarrow> [])"

definition newConfig :: ProxmoxQemuVmConfig where
  "newConfig = \<lparr>Name = [], Vmid = [], MemoryMB = [], Sockets = [], Cores = [], Description = [], Raw = []\<rparr>"

definition ParseQemuVmConfig :: "'f strconv \<Rightarrow> (string \<times> 'f any) list \<Rightarrow> ProxmoxQemuVmConfig" where
  "ParseQemuVmConfig F raw =
     fold (\<lambda>(k, v) cfg.
             if k = ''name'' then cfg\<lparr>Name := fmt_v F v\<rparr>
             else if k = ''memory'' then cfg\<lparr>MemoryMB := toJSONNumber F v\<rparr>
             else if k = ''sockets'' then cfg\<lparr>Sockets := toJSONNumber F v\<rparr>
             else if k = ''cores'' then cfg\<lparr>Cores := toJSONNumber F v\<rparr>
             else if k = ''description'' then cfg\<lparr>Description := fmt_v F v\<rparr>
             else cfg\<lparr>Raw := AList.update k (fmt_v F v) (Raw cfg)\<rparr>)
       raw newConfig"

text \<open>
  The resource operations. A nil \<^verbatim>\<open>*ProxmoxQemuVmConfig\<close> is \<open>None\<close>. The decode
  target of \<^verbatim>\<open>GetVMConfig\<close>, \<^verbatim>\<open>StartVM\<close> and \<^verbatim>\<open>StopVM\<close> is a pointer to a map that
  is nil when \<^verbatim>\<open>do\<close> is called: \<open>Some None\<close>. The calls of \<^verbatim>\<open>slog.Info\<close> are left out.
\<close>

definition CreateVM ::
  "('e, 't) json_pkg \<Rightarrow> env \<Rightarrow> Client \<Rightarrow> string \<Rightarrow> int \<Rightarrow> ProxmoxQemuVmConfig option
     \<Rightarrow> 'e error option \<times> Client \<times> Request list" where
  "CreateVM J E c node vmid cfg =
     (case cfg of
        None \<Rightarrow> (Some ConfigNil, c, [])
      | Some cf \<Rightarrow>
          if vmid \<le> 0 then (Some (InvalidVMID vmid), c, [])
          else
            (let params = values_Set ''vmid'' (itoa vmid) (ToParams cf);
                 path = apiNodesPath @ ''/'' @ PathEscape node @ ''/qemu'';
                 headers = [(''Content-Type'', ''application/x-www-form-urlencoded'')]
             in case do J E c ''POST'' path (Some params) headers True None of
                  ((err, out), c', sent) \<Rightarrow> (err, c', sent)))"

definition GetVMConfig ::
  "('e, 'f gomap) json_pkg \<Rightarrow> 'f strconv \<Rightarrow> env \<Rightarrow> Client \<Rightarrow> string \<Rightarrow> int
     \<Rightarrow> (ProxmoxQemuVmConfig option \<times> 'e error option) \<times> Client \<times> Request list" where
  "GetVMConfig J F E c node vmid =
     (let path = apiNodesPath @ ''/'' @ PathEscape node @ ''/qemu/'' @ itoa vmid @ ''/config''
      in case do J E c ''GET'' path None [] False (Some None) of
           ((Some err, out), c', sent) \<Rightarrow> ((None, Some err), c', sent)
         | ((None, out), c', sent) \<Rightarrow>
             (let raw = (case out of Some (Some m) \<Rightarrow> m | _ \<Rightarrow> []);
                  cfg = fold (\<lambda>(k, v) cfg.
                                if k = ''name'' then cfg\<lparr>Name := fmt_v F v\<rparr>
                                else if k = ''memory'' then cfg\<lparr>MemoryMB := toJSONNumber F v\<rparr>
                                else if k = ''sockets'' then cfg\<lparr>Sockets := toJSONNumber F v\<rparr>
                                else if k = ''cores'' then cfg\<lparr>Cores := toJSONNumber F v\<rparr>
                                else if k = ''description'' then cfg\<lparr>Description := fmt_v F v\<rparr>
                                else cfg\<lparr>Raw := AList.update k (fmt_v F v) (Raw cfg)\<rparr>)
                          raw newConfig
              in ((Some cfg, None), c', sent)))"

definition StartVM ::
  "('e, 'f gomap) json_pkg \<Rightarrow> env \<Rightarrow> Client \<Rightarrow> string \<Rightarrow> int
     \<Rightarrow> ('f gomap \<times> 'e error option) \<times> Client \<times> Request list" where
  "StartVM J E c node vmid =
     (let path = apiNodesPath @ ''/'' @ PathEscape node @ ''/qemu/'' @ itoa vmid @ apiVmStartSubPath
      in case do J E c ''POST'' path None [] False (Some None) of
           ((Some err, out), c', sent) \<Rightarrow> ((None, Some err), c', sent)
         | ((None, out), c', sent) \<Rightarrow> ((case out of Some r \<Rightarrow> r | None \<Rightarrow> None, None), c', sent))"

definition StopVM ::
  "('e, 'f gomap) json_pkg \<Rightarrow> env \<Rightarrow> Client \<Rightarrow> string \<Rightarrow> int
     \<Rightarrow> ('f gomap \<times> 'e error option) \<times> Client \<times> Request list" where
  "StopVM J E c node vmid =
     (let path = apiNodesPath @ ''/'' @ PathEscape node @ ''/qemu/'' @ itoa vmid @ apiVmStopSubPath
      in case do J E c ''POST'' path None [] False (Some None) of
           ((Some err, out), c', sent) \<Rightarrow> ((None, Some err), c', sent)
         | ((None, out), c', sent) \<Rightarrow> ((case out of Some r \<Rightarrow> r | None \<Rightarrow> None, None), c', sent))"

definition UpdateVMConfig ::
  "('e, 't) json_pkg \<Rightarrow> env \<Rightarrow> Client \<Rightarrow> string \<Rightarrow> int \<Rightarrow> ProxmoxQemuVmConfig option
     \<Rightarrow> 'e error option \<times> Client \<times> Request list" where
  "UpdateVMConfig J E c node vmid cfg =
     (case cfg of
        None \<Rightarrow> (Some ConfigNil, c, [])
      | Some cf \<Rightarrow>
          (let params = ToParams cf;
               path = apiNodesPath @ ''/'' @ PathEscape node @ ''/qemu/'' @ itoa vmid @ ''/config'';
               headers = [(''Content-Type'', ''application/x-www-form-urlencoded'')]
           in case do J E c ''PUT'' path (Some params) headers True None of
                ((err, out), c', sent) \<Rightarrow> (err, c', sent)))"



text \<open>
  \<^verbatim>\<open>ListVMs\<close> does not go through \<^verbatim>\<open>do\<close>: it builds its own URL and request. The
  decoding of the list of \<^verbatim>\<open>QemuVm\<close> is the parameter \<open>dec\<close> (the bytes of the body and
  whether reading them fails; \<open>None\<close> for an error).
\<close>

definition ListVMs_url :: "Client \<Rightarrow> string \<Rightarrow> bool \<Rightarrow> string" where
  "ListVMs_url c node full =
     (let fullInt = (if full then 1 else 0 :: int)
      in url_String (baseURL c) @ ''/api2/json/nodes/'' @ node @ ''/qemu?full='' @ itoa fullInt)"

definition ListVMs_request :: "env \<Rightarrow> Client \<Rightarrow> string \<Rightarrow> bool \<Rightarrow> Request option" where
  "ListVMs_request E c node full =
     (case NewRequest E ''GET'' (ListVMs_url c node full) None of
        None \<Rightarrow> None
      | Some req \<Rightarrow>
          Some (req\<lparr>Header :=
                  (if authMethod c = AuthToken
                   then header_Set ''Authorization''
                          (''PVEAPIToken='' @ username c @ ''='' @ password c) (Header req)
                   else header_Set ''CSRFPreventionToken'' (csrfToken c)
                          (header_Set ''Cookie'' (''PVEAuthCookie='' @ authTicket c) (Header req)))\<rparr>))"




subsection \<open>A sample environment\<close>

text \<open>
  The environment of the examples below: a server at \<^verbatim>\<open>https://pve:8006\<close> whose answers
  are given per example, a \<^verbatim>\<open>url.Parse\<close> that reads a scheme, a host and a path and
  refuses text with a space or a control byte, and a clock. The documents of the
  examples hold no number, so their \<open>strconv\<close> parses none.
\<close>

definition sample_parse_url :: "string \<Rightarrow> URL option" where
  "sample_parse_url s =
     (let scheme = takeWhile (\<lambda>c. c \<noteq> CHR '':'') s;
          rest = dropWhile (\<lambda>c. c \<noteq> CHR '':'') s;
          auth = drop 3 rest
      in if scheme = [] \<or> \<not> list_all is_alnum scheme \<or> take 3 rest \<noteq> ''://''
            \<or> list_ex (\<lambda>c. c \<le> CHR '' '' \<or> c = CHR 0x7F) s
         then None
         else Some \<lparr>Scheme = scheme,
                    Host = takeWhile (\<lambda>c. c \<noteq> CHR ''/'' \<and> c \<noteq> CHR ''?'') auth,
                    Path = takeWhile (\<lambda>c. c \<noteq> CHR ''?'')
                             (dropWhile (\<lambda>c. c \<noteq> CHR ''/'' \<and> c \<noteq> CHR ''?'') auth)\<rparr>)"

definition sample_env :: "(Request \<Rightarrow> string + Response) \<Rightarrow> env" where
  "sample_env server =
     \<lparr>parse_url = sample_parse_url, round_trip = server,
      now = 1793404800 * Second, now_after = 1793404801 * Second\<rparr>"

definition no_numbers :: "unit strconv" where
  "no_numbers = \<lparr>ParseFloat = (\<lambda>l. None), fmt_g = (\<lambda>f. []), fmt_f0 = (\<lambda>f. [])\<rparr>"

definition answer :: "int \<Rightarrow> string \<Rightarrow> Request \<Rightarrow> string + Response" where
  "answer status text req = Inr \<lparr>StatusCode = status, Body = text, BodyErr = False, Cookies = []\<rparr>"

definition failing_read :: "int \<Rightarrow> string \<Rightarrow> Request \<Rightarrow> string + Response" where
  "failing_read status text req = Inr \<lparr>StatusCode = status, Body = text, BodyErr = True, Cookies = []\<rparr>"

definition sample_client :: "AuthMethod \<Rightarrow> Client" where
  "sample_client m =
     \<lparr>baseURL = \<lparr>Scheme = ''https'', Host = ''pve:8006'', Path = []\<rparr>, authMethod = m,
      username = ''root@pam'', password = ''secret'', Timeout = 60 * Second,
      InsecureSkipVerify = True, authTicket = [], csrfToken = [], authCookie = None,
      lastLogin = zeroTime, loginExpiry = 1 * Hour\<rparr>"

text \<open>
  A password-mode client whose ticket was issued two hours before the sample clock reads.
\<close>

definition stale_client :: Client where
  "stale_client =
     (sample_client AuthPassword)\<lparr>authTicket := ''OLD'', csrfToken := ''OLDCSRF'',
                                    lastLogin := 1793404800 * Second - 2 * Hour\<rparr>"



definition same_config :: "ProxmoxQemuVmConfig \<Rightarrow> ProxmoxQemuVmConfig \<Rightarrow> bool" where
  "same_config a b \<longleftrightarrow>
     Name a = Name b \<and> Vmid a = Vmid b \<and> MemoryMB a = MemoryMB b \<and> Sockets a = Sockets b
     \<and> Cores a = Cores b \<and> Description a = Description b \<and> map_of (Raw a) = map_of (Raw b)"

definition field_step :: "'f strconv \<Rightarrow> string \<times> 'f any \<Rightarrow> ProxmoxQemuVmConfig \<Rightarrow> ProxmoxQemuVmConfig" where
  "field_step F kv cfg =
     (if fst kv = ''name'' then cfg\<lparr>Name := fmt_v F (snd kv)\<rparr>
      else if fst kv = ''memory'' then cfg\<lparr>MemoryMB := toJSONNumber F (snd kv)\<rparr>
      else if fst kv = ''sockets'' then cfg\<lparr>Sockets := toJSONNumber F (snd kv)\<rparr>
      else if fst kv = ''cores'' then cfg\<lparr>Cores := toJSONNumber F (snd kv)\<rparr>
      else if fst kv = ''description'' then cfg\<lparr>Description := fmt_v F (snd kv)\<rparr>
      else cfg\<lparr>Raw := AList.update (fst kv) (fmt_v F (snd kv)) (Raw cfg)\<rparr>)"

definition typed_keys :: "string set" where
  "typed_keys = {''name'', ''memory'', ''sockets'', ''cores'', ''description''}"

section \<open>Properties\<close>

subsection \<open>What every call leaves of the client\<close>












subsection \<open>Login and the request pipeline\<close>




text \<open>
  C2, at the input \<^verbatim>\<open>NewClient("https://pve:8006", "root@pam", "secret", false, false)\<close>:
  the claim is that the transport's \<^verbatim>\<open>InsecureSkipVerify\<close> equals the flag the caller
  passed. \<^verbatim>\<open>NewClient\<close> passes the constant \<^verbatim>\<open>true\<close> to \<^verbatim>\<open>newClient\<close> and never reads
  \<^verbatim>\<open>tlsCfg\<close>, so the client built with the flag false skips verification.
\<close>

theorem NewClient_drops_tlsCfg:
  "map_sum (\<lambda>e. ()) InsecureSkipVerify
     (NewClient (sample_env (answer 200 [])) ''https://pve:8006'' ''root@pam'' ''secret'' False False
        :: unit error + Client) = Inr True"
  by code_simp

text \<open>
  C3, at a password-mode client holding the CSRF token \<^verbatim>\<open>C1\<close>: the claim is that every
  state-changing operation sends the \<^verbatim>\<open>CSRFPreventionToken\<close> header. \<^verbatim>\<open>StartVM\<close> and
  \<^verbatim>\<open>StopVM\<close> call \<^verbatim>\<open>do\<close> with \<^verbatim>\<open>csrf\<close> false and send the cookie alone, where
  \<^verbatim>\<open>UpdateVMConfig\<close> sends the token (the header's key is stored in canonical form).
\<close>

theorem StartVM_StopVM_without_csrf:
  "map Header (snd (snd (StartVM (encoding_json no_numbers) (sample_env (answer 200 ''{\"data\": null}''))
       ((sample_client AuthPassword)\<lparr>authTicket := ''T1'', csrfToken := ''C1''\<rparr>) ''pve'' 100)))
     = [[(''Cookie'', ''PVEAuthCookie=T1''), (''Accept'', ''application/json'')]]
   \<and> map Header (snd (snd (StopVM (encoding_json no_numbers) (sample_env (answer 200 ''{\"data\": null}''))
       ((sample_client AuthPassword)\<lparr>authTicket := ''T1'', csrfToken := ''C1''\<rparr>) ''pve'' 100)))
     = [[(''Cookie'', ''PVEAuthCookie=T1''), (''Accept'', ''application/json'')]]
   \<and> map Header (snd (snd (UpdateVMConfig (encoding_json no_numbers)
       (sample_env (answer 200 ''{\"data\": null}''))
       ((sample_client AuthPassword)\<lparr>authTicket := ''T1'', csrfToken := ''C1''\<rparr>) ''pve'' 100
       (Some newConfig))))
     = [[(''Csrfpreventiontoken'', ''C1''), (''Cookie'', ''PVEAuthCookie=T1''),
         (''Accept'', ''application/json''), (''Content-Type'', ''application/x-www-form-urlencoded'')]]"
  by code_simp



text \<open>
  C6: when the login call of a password-mode client answers with a status other than
  200, or with a body that does not decode, \<^verbatim>\<open>Login\<close> returns an error and the client,
  so its ticket, CSRF token, cookie and time of last login, is what it was.
\<close>

theorem failed_login_keeps_credentials:
  assumes "authMethod c = AuthPassword"
    and "authTicket c = [] \<or> time_Sub (now E) (lastLogin c) \<ge> loginExpiry c"
    and "loginRequest E c = Some req"
    and "round_trip E req = Inr resp"
    and "StatusCode resp \<noteq> 200 \<or> decode_login J (Body resp) (BodyErr resp) = None"
  shows "\<exists>e. Login J E c = (Some e, c, [req])"
  using assms by (auto simp: Login_def)

theorem failed_login_keeps_credentials_witness:
  "authMethod stale_client = AuthPassword
   \<and> time_Sub (now (sample_env (answer 200 ''<html>busy</html>''))) (lastLogin stale_client)
       \<ge> loginExpiry stale_client
   \<and> decode_login (encoding_json no_numbers) ''<html>busy</html>'' False = None
   \<and> (\<exists>e. Login (encoding_json no_numbers) (sample_env (answer 200 ''<html>busy</html>'')) stale_client
         = (Some e, stale_client,
            [\<lparr>Method = ''POST'', Url = ''https://pve:8006/api2/json/access/ticket'',
              Header = [(''Content-Type'', ''application/x-www-form-urlencoded'')],
              ReqBody = Some [(''username'', ''root@pam''), (''password'', ''secret'')]\<rparr>]))"
proof -
  let ?E = "sample_env (answer 200 ''<html>busy</html>'')"
  let ?req = "\<lparr>Method = ''POST'', Url = ''https://pve:8006/api2/json/access/ticket'',
               Header = [(''Content-Type'', ''application/x-www-form-urlencoded'')],
               ReqBody = Some [(''username'', ''root@pam''), (''password'', ''secret'')]\<rparr>"
  let ?resp = "\<lparr>StatusCode = 200, Body = ''<html>busy</html>'', BodyErr = False, Cookies = []\<rparr>"
  have h1: "authMethod stale_client = AuthPassword"
    by (simp add: stale_client_def sample_client_def)
  have h2: "time_Sub (now ?E) (lastLogin stale_client) \<ge> loginExpiry stale_client"
    by code_simp
  have h3: "loginRequest ?E stale_client = Some ?req"
    by code_simp
  have h4: "round_trip ?E ?req = Inr ?resp"
    by (simp add: sample_env_def answer_def)
  have h5: "decode_login (encoding_json no_numbers) ''<html>busy</html>'' False = None"
    by code_simp
  have h5': "StatusCode ?resp \<noteq> 200
             \<or> decode_login (encoding_json no_numbers) (Body ?resp) (BodyErr ?resp) = None"
    using h5 by simp
  from failed_login_keeps_credentials [OF h1 disjI2 [OF h2] h3 h4 h5']
  show ?thesis using h1 h2 h5 by simp
qed

text \<open>
  C8, at the node name \<^verbatim>\<open>pve/../x?y\<close>: the claim is that every resource operation
  escapes the node name in its path. \<^verbatim>\<open>ListVMs\<close> formats the node into its URL as it
  is, slash and question mark included, where \<^verbatim>\<open>StartVM\<close> passes it through
  \<^verbatim>\<open>url.PathEscape\<close> (and \<^verbatim>\<open>URL.String\<close> then escapes the percent signs once more).
\<close>

theorem ListVMs_node_not_escaped:
  "map_option Url (ListVMs_request (sample_env (answer 200 ''{\"data\": []}''))
                     (sample_client AuthToken) ''pve/../x?y'' False)
     = Some ''https://pve:8006/api2/json/nodes/pve/../x?y/qemu?full=0''
   \<and> PathEscape ''pve/../x?y'' = ''pve%2F..%2Fx%3Fy''
   \<and> map Url (snd (snd (StartVM (encoding_json no_numbers) (sample_env (answer 200 ''{\"data\": null}''))
       (sample_client AuthToken) ''pve/../x?y'' 100)))
     = [''https://pve:8006/api2/json/nodes/pve%252F..%252Fx%253Fy/qemu/100/status/start'']"
  by code_simp

text \<open>
  C9: \<^verbatim>\<open>CreateVM\<close> with a nil configuration or with a VM id that is not positive returns
  an error and sends no request, and so does \<^verbatim>\<open>UpdateVMConfig\<close> with a nil
  configuration.
\<close>

theorem validation_before_network:
  assumes "cfg = None \<or> vmid \<le> 0"
  shows "(\<exists>e. CreateVM J E c node vmid cfg = (Some e, c, []))
       \<and> UpdateVMConfig J E c node vmid' None = (Some ConfigNil, c, [])"
  using assms by (auto simp: CreateVM_def UpdateVMConfig_def split: option.splits)

theorem validation_before_network_witness:
  "(Some newConfig = None \<or> (0::int) \<le> 0)
   \<and> (\<exists>e. CreateVM (encoding_json no_numbers) (sample_env (answer 200 [])) (sample_client AuthPassword)
            ''pve'' 0 (Some newConfig) = (Some e, sample_client AuthPassword, []))
   \<and> UpdateVMConfig (encoding_json no_numbers) (sample_env (answer 200 [])) (sample_client AuthPassword)
        ''pve'' 100 None = (Some ConfigNil, sample_client AuthPassword, [])"
  using validation_before_network [of "Some newConfig" 0 "encoding_json no_numbers"
      "sample_env (answer 200 [])" "sample_client AuthPassword" "''pve''" 100]
  by simp

subsection \<open>The model of the decoder\<close>

lemma map_option_pair_eq:
  "(map_option (\<lambda>(t, rest). (f t, rest)) x = Some (v, r)) = (\<exists>t. x = Some (t, r) \<and> f t = v)"
  by (cases x) auto

lemma map_option_cons_eq:
  "(map_option (\<lambda>(ms, rest). (x # ms, rest)) y = Some (zs, r)) = (\<exists>tl. y = Some (tl, r) \<and> zs = x # tl)"
  by (cases y) auto

text \<open>
  The bound on nested calls is enough: a successful scan leaves less text than it was
  given and succeeds again, with the same result, under any bound that is at least the
  number of bytes it consumed. So \<open>json_parse\<close> gives the same answer for every bound from
  the length of the text on, and \<open>None\<close> is never the bound running out.
\<close>

lemma scan_string_length: "scan_string s = Some (t, r) \<Longrightarrow> length r < length s"
proof (induction s arbitrary: t r rule: scan_string.induct)
  case 1
  then show ?case by simp
next
  case (2 c cs)
  from "2.prems" "2.IH" show ?case
    by (fastforce simp: map_option_pair_eq split: if_splits list.splits option.splits)
qed

lemma skip_ws_length: "length (skip_ws s) \<le> length s"
  by (simp add: skip_ws_def length_dropWhile_le)

lemma scan_int_length: "scan_int s = Some (t, r) \<Longrightarrow> length r < length s"
  by (cases s) (auto simp: scan_int_def less_Suc_eq_le length_dropWhile_le split: if_splits)

lemma scan_frac_length: "scan_frac s = Some (t, r) \<Longrightarrow> length r \<le> length s"
  by (cases s) (auto simp: scan_frac_def le_SucI length_dropWhile_le split: if_splits)

lemma scan_exp_length: "scan_exp s = Some (t, r) \<Longrightarrow> length r \<le> length s"
proof (cases s)
  case Nil
  assume "scan_exp s = Some (t, r)"
  with Nil show ?thesis by (simp add: scan_exp_def)
next
  case (Cons c cs)
  assume a: "scan_exp s = Some (t, r)"
  have "length (dropWhile is_digit (drop n cs)) \<le> length cs" for n
    by (rule order_trans [OF length_dropWhile_le]) simp
  with a Cons show ?thesis
    by (auto simp: scan_exp_def Let_def le_SucI split: if_splits)
qed

lemma scan_number_length:
  assumes "scan_number s = Some (t, r)"
  shows "length r < length s"
proof -
  from assms obtain k i r1 f r2 e where
    i: "scan_int (drop k s) = Some (i, r1)"
    and f: "scan_frac r1 = Some (f, r2)" and e: "scan_exp r2 = Some (e, r)"
    by (auto simp: scan_number_def Let_def split: option.splits)
  from scan_int_length [OF i] have "length r1 < length s" by simp
  with scan_frac_length [OF f] scan_exp_length [OF e] show ?thesis by simp
qed

lemma pv_obj:
  "parse_value (Suc n) (CHR ''{'' # r0) =
     (case skip_ws r0 of
        [] \<Rightarrow> None
      | d # r' \<Rightarrow>
          if d = CHR ''}'' then Some (JObject [], r')
          else map_option (\<lambda>(ms, rest). (JObject (map (\<lambda>(k, raw, v). (k, v)) ms), rest))
                 (parse_members n (d # r')))"
  by simp

lemma pv_arr:
  "parse_value (Suc n) (CHR ''['' # r0) =
     (case skip_ws r0 of
        [] \<Rightarrow> None
      | d # r' \<Rightarrow>
          if d = CHR '']'' then Some (JArray [], r')
          else map_option (\<lambda>(vs, rest). (JArray vs, rest)) (parse_elements n (d # r')))"
  by simp

lemma pv_scalar:
  "c \<noteq> CHR ''{'' \<Longrightarrow> c \<noteq> CHR ''['' \<Longrightarrow>
     parse_value (Suc n) (c # r0) = parse_value (Suc 0) (c # r0)"
  by simp

lemma pv_scalar_length:
  assumes "c \<noteq> CHR ''{''" and "c \<noteq> CHR ''[''" and "parse_value (Suc 0) (c # r0) = Some (v, r)"
  shows "length r < length (c # r0)"
  using assms
  by (auto simp: map_option_pair_eq split: if_splits dest: scan_string_length scan_number_length)

lemma pm_inv:
  assumes "parse_members (Suc n) s = Some (ms, r)"
  shows "\<exists>r0 k r1 r2 v r3 e r4.
           s = CHR 0x22 # r0 \<and> scan_string r0 = Some (k, r1) \<and> skip_ws r1 = CHR '':'' # r2
           \<and> parse_value n (skip_ws r2) = Some (v, r3) \<and> skip_ws r3 = e # r4
           \<and> (e = CHR ''}'' \<and> r = r4
                 \<and> ms = [(k, take (length (skip_ws r2) - length r3) (skip_ws r2), v)]
               \<or> e = CHR '','' \<and> e \<noteq> CHR ''}''
                 \<and> (\<exists>tl. parse_members n (skip_ws r4) = Some (tl, r)
                        \<and> ms = (k, take (length (skip_ws r2) - length r3) (skip_ws r2), v) # tl))"
  using assms
  by (simp add: Let_def map_option_cons_eq split: list.splits if_splits option.splits prod.splits)
     blast

lemma pm_build:
  assumes "scan_string r0 = Some (k, r1)" and "skip_ws r1 = CHR '':'' # r2"
    and "parse_value n (skip_ws r2) = Some (v, r3)" and "skip_ws r3 = e # r4"
  shows "parse_members (Suc n) (CHR 0x22 # r0) =
           (if e = CHR ''}'' then Some ([(k, take (length (skip_ws r2) - length r3) (skip_ws r2), v)], r4)
            else if e = CHR '','' then
              map_option (\<lambda>(ms, rest). ((k, take (length (skip_ws r2) - length r3) (skip_ws r2), v) # ms, rest))
                (parse_members n (skip_ws r4))
            else None)"
  using assms by (simp add: Let_def)

lemma pe_inv:
  assumes "parse_elements (Suc n) s = Some (vs, r)"
  shows "\<exists>v r1 e r2.
           parse_value n s = Some (v, r1) \<and> skip_ws r1 = e # r2
           \<and> (e = CHR '']'' \<and> r = r2 \<and> vs = [v]
               \<or> e = CHR '','' \<and> e \<noteq> CHR '']''
                 \<and> (\<exists>tl. parse_elements n (skip_ws r2) = Some (tl, r) \<and> vs = v # tl))"
  using assms
  by (simp add: map_option_cons_eq split: list.splits if_splits option.splits prod.splits)
     blast

lemma pe_build:
  assumes "parse_value n s = Some (v, r1)" and "skip_ws r1 = e # r2"
  shows "parse_elements (Suc n) s =
           (if e = CHR '']'' then Some ([v], r2)
            else if e = CHR '','' then
              map_option (\<lambda>(vs, rest). (v # vs, rest)) (parse_elements n (skip_ws r2))
            else None)"
  using assms by simp


lemma fuel_enough:
  "(\<forall>s v r. parse_value n s = Some (v, r) \<longrightarrow>
      length r < length s \<and> (\<forall>m. length s \<le> m + length r \<longrightarrow> parse_value m s = Some (v, r)))
   \<and> (\<forall>s ms r. parse_members n s = Some (ms, r) \<longrightarrow>
      length r < length s \<and> (\<forall>m. length s \<le> m + length r \<longrightarrow> parse_members m s = Some (ms, r)))
   \<and> (\<forall>s vs r. parse_elements n s = Some (vs, r) \<longrightarrow>
      length r < length s \<and> (\<forall>m. length s \<le> m + length r \<longrightarrow> parse_elements m s = Some (vs, r)))"
proof (induction n)
  case 0
  show ?case by simp
next
  case (Suc n)
  from Suc.IH have IHv: "\<And>s v r. parse_value n s = Some (v, r) \<Longrightarrow>
      length r < length s \<and> (\<forall>m. length s \<le> m + length r \<longrightarrow> parse_value m s = Some (v, r))"
    and IHm: "\<And>s ms r. parse_members n s = Some (ms, r) \<Longrightarrow>
      length r < length s \<and> (\<forall>m. length s \<le> m + length r \<longrightarrow> parse_members m s = Some (ms, r))"
    and IHe: "\<And>s vs r. parse_elements n s = Some (vs, r) \<Longrightarrow>
      length r < length s \<and> (\<forall>m. length s \<le> m + length r \<longrightarrow> parse_elements m s = Some (vs, r))"
    by blast+
  have V: "length r < length s \<and> (\<forall>m. length s \<le> m + length r \<longrightarrow> parse_value m s = Some (v, r))"
    if a: "parse_value (Suc n) s = Some (v, r)" for s v r
  proof (cases s)
    case Nil
    with a show ?thesis by simp
  next
    case (Cons c r0)
    consider (obj) "c = CHR ''{''" | (arr) "c = CHR ''[''" | (other) "c \<noteq> CHR ''{''" "c \<noteq> CHR ''[''"
      by blast
    then show ?thesis
    proof cases
      case obj
      from a obtain d r' where sk: "skip_ws r0 = d # r'"
        unfolding Cons obj pv_obj by (cases "skip_ws r0") auto
      have l0: "Suc (length r') \<le> length r0"
        using skip_ws_length [of r0] sk by simp
      show ?thesis
      proof (cases "d = CHR ''}''")
        case True
        with a sk have vr: "v = JObject []" "r = r'"
          unfolding Cons obj pv_obj by auto
        have "parse_value m s = Some (v, r)" if "length s \<le> m + length r" for m
        proof -
          from that l0 vr Cons obtain m' where "m = Suc m'" by (cases m) auto
          then show ?thesis using sk True vr unfolding Cons obj pv_obj by simp
        qed
        then show ?thesis using l0 vr Cons by simp
      next
        case False
        with a sk obtain ms where pm: "parse_members n (d # r') = Some (ms, r)"
          and v: "v = JObject (map (\<lambda>(k, raw, v). (k, v)) ms)"
          unfolding Cons obj pv_obj by (auto simp: map_option_pair_eq)
        from IHm [OF pm] have l: "length r < length (d # r')"
          and re: "\<And>m. length (d # r') \<le> m + length r \<Longrightarrow> parse_members m (d # r') = Some (ms, r)"
          by blast+
        have "parse_value m s = Some (v, r)" if "length s \<le> m + length r" for m
        proof -
          from that l l0 Cons obtain m' where m: "m = Suc m'" by (cases m) auto
          with that l0 Cons have "length (d # r') \<le> m' + length r" by simp
          from re [OF this] show ?thesis using sk False v m unfolding Cons obj pv_obj by simp
        qed
        then show ?thesis using l l0 Cons by simp
      qed
    next
      case arr
      from a obtain d r' where sk: "skip_ws r0 = d # r'"
        unfolding Cons arr pv_arr by (cases "skip_ws r0") auto
      have l0: "Suc (length r') \<le> length r0"
        using skip_ws_length [of r0] sk by simp
      show ?thesis
      proof (cases "d = CHR '']''")
        case True
        with a sk have vr: "v = JArray []" "r = r'"
          unfolding Cons arr pv_arr by auto
        have "parse_value m s = Some (v, r)" if "length s \<le> m + length r" for m
        proof -
          from that l0 vr Cons obtain m' where "m = Suc m'" by (cases m) auto
          then show ?thesis using sk True vr unfolding Cons arr pv_arr by simp
        qed
        then show ?thesis using l0 vr Cons by simp
      next
        case False
        with a sk obtain vs where pe: "parse_elements n (d # r') = Some (vs, r)"
          and v: "v = JArray vs"
          unfolding Cons arr pv_arr by (auto simp: map_option_pair_eq)
        from IHe [OF pe] have l: "length r < length (d # r')"
          and re: "\<And>m. length (d # r') \<le> m + length r \<Longrightarrow> parse_elements m (d # r') = Some (vs, r)"
          by blast+
        have "parse_value m s = Some (v, r)" if "length s \<le> m + length r" for m
        proof -
          from that l l0 Cons obtain m' where m: "m = Suc m'" by (cases m) auto
          with that l0 Cons have "length (d # r') \<le> m' + length r" by simp
          from re [OF this] show ?thesis using sk False v m unfolding Cons arr pv_arr by simp
        qed
        then show ?thesis using l l0 Cons by simp
      qed
    next
      case other
      from a have "parse_value (Suc n) (c # r0) = Some (v, r)"
        by (simp only: Cons)
      then have a0: "parse_value (Suc 0) (c # r0) = Some (v, r)"
        by (simp only: pv_scalar [OF other, of n r0])
      from pv_scalar_length [OF other a0] have l: "length r < length s" using Cons by simp
      have "parse_value m s = Some (v, r)" if "length s \<le> m + length r" for m
      proof -
        from that l obtain m' where m: "m = Suc m'" by (cases m) auto
        show ?thesis unfolding m Cons by (simp only: pv_scalar [OF other, of m' r0] a0)
      qed
      then show ?thesis using l by simp
    qed
  qed
  have M: "length r < length s \<and> (\<forall>m. length s \<le> m + length r \<longrightarrow> parse_members m s = Some (ms, r))"
    if a: "parse_members (Suc n) s = Some (ms, r)" for s ms r
  proof -
    from pm_inv [OF a] obtain r0 k r1 r2 v r3 e r4 where
      s: "s = CHR 0x22 # r0" and ss: "scan_string r0 = Some (k, r1)"
      and sk1: "skip_ws r1 = CHR '':'' # r2"
      and pv: "parse_value n (skip_ws r2) = Some (v, r3)" and sk3: "skip_ws r3 = e # r4"
      and c: "e = CHR ''}'' \<and> r = r4
                 \<and> ms = [(k, take (length (skip_ws r2) - length r3) (skip_ws r2), v)]
               \<or> e = CHR '','' \<and> e \<noteq> CHR ''}''
                 \<and> (\<exists>tl. parse_members n (skip_ws r4) = Some (tl, r)
                        \<and> ms = (k, take (length (skip_ws r2) - length r3) (skip_ws r2), v) # tl)"
      by blast
    from scan_string_length [OF ss] have l1: "length r1 < length r0" .
    from skip_ws_length [of r1] sk1 have l2: "length r2 < length r1" by simp
    from IHv [OF pv] have l3: "length r3 < length (skip_ws r2)"
      and rv: "\<And>m. length (skip_ws r2) \<le> m + length r3 \<Longrightarrow> parse_value m (skip_ws r2) = Some (v, r3)"
      by blast+
    from skip_ws_length [of r3] sk3 have l4: "length r4 < length r3" by simp
    have l5: "length (skip_ws r2) \<le> length r2" by (rule skip_ws_length)
    from c show ?thesis
    proof
      assume c1: "e = CHR ''}'' \<and> r = r4
                 \<and> ms = [(k, take (length (skip_ws r2) - length r3) (skip_ws r2), v)]"
      have "parse_members m s = Some (ms, r)" if "length s \<le> m + length r" for m
      proof -
        from that c1 l1 l2 l3 l4 l5 s obtain m' where m: "m = Suc m'" by (cases m) auto
        with that c1 l1 l2 l3 l4 l5 s have "length (skip_ws r2) \<le> m' + length r3" by simp
        from pm_build [OF ss sk1 rv [OF this] sk3] show ?thesis using c1 m s by simp
      qed
      then show ?thesis using c1 l1 l2 l3 l4 l5 s by simp
    next
      assume c2: "e = CHR '','' \<and> e \<noteq> CHR ''}''
                 \<and> (\<exists>tl. parse_members n (skip_ws r4) = Some (tl, r)
                        \<and> ms = (k, take (length (skip_ws r2) - length r3) (skip_ws r2), v) # tl)"
      then obtain tl where pm: "parse_members n (skip_ws r4) = Some (tl, r)"
        and ms: "ms = (k, take (length (skip_ws r2) - length r3) (skip_ws r2), v) # tl"
        by blast
      from IHm [OF pm] have l6: "length r < length (skip_ws r4)"
        and rm: "\<And>m. length (skip_ws r4) \<le> m + length r \<Longrightarrow> parse_members m (skip_ws r4) = Some (tl, r)"
        by blast+
      have l7: "length (skip_ws r4) \<le> length r4" by (rule skip_ws_length)
      have "parse_members m s = Some (ms, r)" if "length s \<le> m + length r" for m
      proof -
        from that l1 l2 l3 l4 l5 l6 l7 s obtain m' where m: "m = Suc m'" by (cases m) auto
        with that l1 l2 l3 l4 l5 l6 l7 s have b1: "length (skip_ws r2) \<le> m' + length r3"
          and b2: "length (skip_ws r4) \<le> m' + length r" by simp_all
        from pm_build [OF ss sk1 rv [OF b1] sk3] rm [OF b2] show ?thesis using c2 ms m s by simp
      qed
      then show ?thesis using l1 l2 l3 l4 l5 l6 l7 s by simp
    qed
  qed
  have E: "length r < length s \<and> (\<forall>m. length s \<le> m + length r \<longrightarrow> parse_elements m s = Some (vs, r))"
    if a: "parse_elements (Suc n) s = Some (vs, r)" for s vs r
  proof -
    from pe_inv [OF a] obtain v r1 e r2 where
      pv: "parse_value n s = Some (v, r1)" and sk: "skip_ws r1 = e # r2"
      and c: "e = CHR '']'' \<and> r = r2 \<and> vs = [v]
               \<or> e = CHR '','' \<and> e \<noteq> CHR '']''
                 \<and> (\<exists>tl. parse_elements n (skip_ws r2) = Some (tl, r) \<and> vs = v # tl)"
      by blast
    from IHv [OF pv] have l1: "length r1 < length s"
      and rv: "\<And>m. length s \<le> m + length r1 \<Longrightarrow> parse_value m s = Some (v, r1)"
      by blast+
    from skip_ws_length [of r1] sk have l2: "length r2 < length r1" by simp
    from c show ?thesis
    proof
      assume c1: "e = CHR '']'' \<and> r = r2 \<and> vs = [v]"
      have "parse_elements m s = Some (vs, r)" if "length s \<le> m + length r" for m
      proof -
        from that c1 l1 l2 obtain m' where m: "m = Suc m'" by (cases m) auto
        with that c1 l1 l2 have "length s \<le> m' + length r1" by simp
        from pe_build [OF rv [OF this] sk] show ?thesis using c1 m by simp
      qed
      then show ?thesis using c1 l1 l2 by simp
    next
      assume c2: "e = CHR '','' \<and> e \<noteq> CHR '']''
                 \<and> (\<exists>tl. parse_elements n (skip_ws r2) = Some (tl, r) \<and> vs = v # tl)"
      then obtain tl where pe: "parse_elements n (skip_ws r2) = Some (tl, r)" and vs: "vs = v # tl"
        by blast
      from IHe [OF pe] have l3: "length r < length (skip_ws r2)"
        and re: "\<And>m. length (skip_ws r2) \<le> m + length r \<Longrightarrow> parse_elements m (skip_ws r2) = Some (tl, r)"
        by blast+
      have l4: "length (skip_ws r2) \<le> length r2" by (rule skip_ws_length)
      have "parse_elements m s = Some (vs, r)" if "length s \<le> m + length r" for m
      proof -
        from that l1 l2 l3 l4 obtain m' where m: "m = Suc m'" by (cases m) auto
        with that l1 l2 l3 l4 have b1: "length s \<le> m' + length r1"
          and b2: "length (skip_ws r2) \<le> m' + length r" by simp_all
        from pe_build [OF rv [OF b1] sk] re [OF b2] show ?thesis using c2 vs m by simp
      qed
      then show ?thesis using l1 l2 l3 l4 by simp
    qed
  qed
  from V M E show ?case by blast
qed

lemma parse_value_fuel:
  assumes "length s \<le> m" and "length s \<le> m'"
  shows "parse_value m s = parse_value m' s"
proof -
  have one: "parse_value b s = Some x \<Longrightarrow> length s \<le> a \<Longrightarrow> parse_value a s = Some x" for a b x
  proof -
    assume p: "parse_value b s = Some x" and a: "length s \<le> a"
    obtain v r where x: "x = (v, r)" by (cases x)
    from fuel_enough [of b] p x
    have "\<forall>k. length s \<le> k + length r \<longrightarrow> parse_value k s = Some (v, r)" by blast
    with a x show ?thesis by simp
  qed
  show ?thesis
  proof (cases "parse_value m s")
    case None
    show ?thesis
    proof (cases "parse_value m' s")
      case None
      with \<open>parse_value m s = None\<close> show ?thesis by simp
    next
      case (Some x)
      from one [OF Some assms(1)] None show ?thesis by simp
    qed
  next
    case (Some x)
    from one [OF Some assms(2)] Some show ?thesis by simp
  qed
qed

lemma json_parse_fuel:
  assumes "length s \<le> m"
  shows "json_parse s =
           (case parse_value m (skip_ws s) of
              None \<Rightarrow> None
            | Some (v, rest) \<Rightarrow> if skip_ws rest = [] then Some v else None)"
proof -
  have "length (skip_ws s) \<le> m" "length (skip_ws s) \<le> Suc (length s)"
    using skip_ws_length [of s] assms by simp_all
  from parse_value_fuel [OF this] show ?thesis
    by (simp add: json_parse_def)
qed


















declare scan_string.simps [simp del]







declare scan_string.simps [simp]










subsection \<open>The response unwrapper\<close>

text \<open>
  C4, as the code has it. The claim: for every response with status 400 or more the
  pipeline returns an \<^verbatim>\<open>APIError\<close> with that status and a non-nil errors map, whether
  the body parses or not. In the code the map is the \<^verbatim>\<open>Errors\<close> field of a wrapper whose
  zero value is the nil map, and a failed \<^verbatim>\<open>json.Unmarshal\<close> stores nothing: a 403 with
  the body \<^verbatim>\<open>forbidden\<close> gives an \<^verbatim>\<open>APIError\<close> whose map is nil. And the body is read
  before the status is looked at: a 500 whose body cannot be read gives the read error, not
  an \<^verbatim>\<open>APIError\<close>.
\<close>

theorem api_error_map_is_nil:
  "fst (do (encoding_json no_numbers) (sample_env (answer 403 ''forbidden'')) (sample_client AuthToken)
          ''GET'' ''/api2/json/version'' None [] False None)
     = (Some (APIError 403 None), None)
   \<and> fst (do (encoding_json no_numbers) (sample_env (failing_read 500 [])) (sample_client AuthToken)
          ''GET'' ''/api2/json/version'' None [] False None)
     = (Some ReadBodyError, None)"
  by code_simp

text \<open>
  C4, amended: for every response with status 400 or more whose body is read without
  error, the pipeline returns an \<^verbatim>\<open>APIError\<close> carrying exactly that status, whether or
  not the body parses as JSON; its errors map is what the decoder stored, and it is nil when
  the body is not valid JSON.
\<close>

theorem api_error_carries_status:
  assumes "buildRequest E c m p b hs csrf = Some req"
    and "round_trip E req = Inr resp"
    and "\<not> BodyErr resp"
    and "StatusCode resp \<ge> 400"
  shows "do J E c m p b hs csrf out
           = ((Some (APIError (StatusCode resp) (unmarshal_errors J (Body resp))), out), c, [req])
       \<and> (json_parse (Body resp) = None \<longrightarrow>
            do (encoding_json F) E c m p b hs csrf out'
              = ((Some (APIError (StatusCode resp) None), out'), c, [req]))"
  using assms by (simp add: do_def unwrap_def encoding_json_def go_unmarshal_errors_def)

theorem api_error_carries_status_witness:
  "StatusCode \<lparr>StatusCode = 500, Body = ''{\"errors\": {\"vmid\": \"invalid format\"}}'',
              BodyErr = False, Cookies = []\<rparr> \<ge> 400
   \<and> do (encoding_json no_numbers)
        (sample_env (answer 500 ''{\"errors\": {\"vmid\": \"invalid format\"}}''))
        (sample_client AuthToken) ''GET'' ''/api2/json/version'' None [] False None
     = ((Some (APIError 500 (Some [(''vmid'', AString ''invalid format'')])), None),
        sample_client AuthToken,
        [\<lparr>Method = ''GET'', Url = ''https://pve:8006/api2/json/version'',
          Header = [(''Authorization'', ''PVEAPIToken=root@pam=secret''),
                    (''Accept'', ''application/json'')],
          ReqBody = None\<rparr>])"
proof -
  let ?E = "sample_env (answer 500 ''{\"errors\": {\"vmid\": \"invalid format\"}}'')"
  let ?req = "\<lparr>Method = ''GET'', Url = ''https://pve:8006/api2/json/version'',
               Header = [(''Authorization'', ''PVEAPIToken=root@pam=secret''),
                         (''Accept'', ''application/json'')],
               ReqBody = None\<rparr>"
  let ?resp = "\<lparr>StatusCode = 500, Body = ''{\"errors\": {\"vmid\": \"invalid format\"}}'',
                BodyErr = False, Cookies = []\<rparr>"
  have h1: "buildRequest ?E (sample_client AuthToken) ''GET'' ''/api2/json/version'' None [] False
            = Some ?req"
    by code_simp
  have h2: "round_trip ?E ?req = Inr ?resp"
    by (simp add: sample_env_def answer_def)
  have h3: "\<not> BodyErr ?resp" by simp
  have h4: "StatusCode ?resp \<ge> 400" by simp
  have u: "unmarshal_errors (encoding_json no_numbers) (Body ?resp)
           = Some [(''vmid'', AString ''invalid format'')]"
    by code_simp
  from api_error_carries_status [OF h1 h2 h3 h4, of "encoding_json no_numbers" None]
  have "do (encoding_json no_numbers) ?E (sample_client AuthToken) ''GET'' ''/api2/json/version''
          None [] False None
        = ((Some (APIError (StatusCode ?resp) (unmarshal_errors (encoding_json no_numbers) (Body ?resp))),
            None), sample_client AuthToken, [?req])"
    by blast
  then show ?thesis using u h4 by simp
qed




subsection \<open>The two field-mapping loops\<close>

lemma Parse_fold: "ParseQemuVmConfig F raw = fold (field_step F) raw newConfig"
proof -
  have "(\<lambda>(k, v) cfg.
             if k = ''name'' then cfg\<lparr>Name := fmt_v F v\<rparr>
             else if k = ''memory'' then cfg\<lparr>MemoryMB := toJSONNumber F v\<rparr>
             else if k = ''sockets'' then cfg\<lparr>Sockets := toJSONNumber F v\<rparr>
             else if k = ''cores'' then cfg\<lparr>Cores := toJSONNumber F v\<rparr>
             else if k = ''description'' then cfg\<lparr>Description := fmt_v F v\<rparr>
             else cfg\<lparr>Raw := AList.update k (fmt_v F v) (Raw cfg)\<rparr>) = field_step F"
    by (rule ext, rule ext) (simp add: field_step_def split: prod.splits)
  then show ?thesis by (simp add: ParseQemuVmConfig_def)
qed


lemma Name_step:
  "Name (field_step F (k, v) cfg) = (if k = ''name'' then fmt_v F v else Name cfg)"
  by (simp add: field_step_def)

lemma fold_Name:
  "distinct (map fst xs) \<Longrightarrow>
     Name (fold (field_step F) xs cfg)
       = (case map_of xs ''name'' of None \<Rightarrow> Name cfg | Some v \<Rightarrow> fmt_v F v)"
proof (induction xs arbitrary: cfg)
  case Nil
  then show ?case by simp
next
  case (Cons x xs)
  obtain k v where x: "x = (k, v)" by (cases x)
  from Cons.prems x have d: "distinct (map fst xs)" and nk: "map_of xs k = None"
    by (auto simp: map_of_eq_None_iff)
  from Cons.IH [OF d, of "field_step F x cfg"] nk x show ?case
    by (simp add: Name_step split: option.splits)
qed

lemma MemoryMB_step:
  "MemoryMB (field_step F (k, v) cfg) = (if k = ''memory'' then toJSONNumber F v else MemoryMB cfg)"
  by (simp add: field_step_def)

lemma fold_MemoryMB:
  "distinct (map fst xs) \<Longrightarrow>
     MemoryMB (fold (field_step F) xs cfg)
       = (case map_of xs ''memory'' of None \<Rightarrow> MemoryMB cfg | Some v \<Rightarrow> toJSONNumber F v)"
proof (induction xs arbitrary: cfg)
  case Nil
  then show ?case by simp
next
  case (Cons x xs)
  obtain k v where x: "x = (k, v)" by (cases x)
  from Cons.prems x have d: "distinct (map fst xs)" and nk: "map_of xs k = None"
    by (auto simp: map_of_eq_None_iff)
  from Cons.IH [OF d, of "field_step F x cfg"] nk x show ?case
    by (simp add: MemoryMB_step split: option.splits)
qed

lemma Sockets_step:
  "Sockets (field_step F (k, v) cfg) = (if k = ''sockets'' then toJSONNumber F v else Sockets cfg)"
  by (simp add: field_step_def)

lemma fold_Sockets:
  "distinct (map fst xs) \<Longrightarrow>
     Sockets (fold (field_step F) xs cfg)
       = (case map_of xs ''sockets'' of None \<Rightarrow> Sockets cfg | Some v \<Rightarrow> toJSONNumber F v)"
proof (induction xs arbitrary: cfg)
  case Nil
  then show ?case by simp
next
  case (Cons x xs)
  obtain k v where x: "x = (k, v)" by (cases x)
  from Cons.prems x have d: "distinct (map fst xs)" and nk: "map_of xs k = None"
    by (auto simp: map_of_eq_None_iff)
  from Cons.IH [OF d, of "field_step F x cfg"] nk x show ?case
    by (simp add: Sockets_step split: option.splits)
qed

lemma Cores_step:
  "Cores (field_step F (k, v) cfg) = (if k = ''cores'' then toJSONNumber F v else Cores cfg)"
  by (simp add: field_step_def)

lemma fold_Cores:
  "distinct (map fst xs) \<Longrightarrow>
     Cores (fold (field_step F) xs cfg)
       = (case map_of xs ''cores'' of None \<Rightarrow> Cores cfg | Some v \<Rightarrow> toJSONNumber F v)"
proof (induction xs arbitrary: cfg)
  case Nil
  then show ?case by simp
next
  case (Cons x xs)
  obtain k v where x: "x = (k, v)" by (cases x)
  from Cons.prems x have d: "distinct (map fst xs)" and nk: "map_of xs k = None"
    by (auto simp: map_of_eq_None_iff)
  from Cons.IH [OF d, of "field_step F x cfg"] nk x show ?case
    by (simp add: Cores_step split: option.splits)
qed

lemma Description_step:
  "Description (field_step F (k, v) cfg) = (if k = ''description'' then fmt_v F v else Description cfg)"
  by (simp add: field_step_def)

lemma fold_Description:
  "distinct (map fst xs) \<Longrightarrow>
     Description (fold (field_step F) xs cfg)
       = (case map_of xs ''description'' of None \<Rightarrow> Description cfg | Some v \<Rightarrow> fmt_v F v)"
proof (induction xs arbitrary: cfg)
  case Nil
  then show ?case by simp
next
  case (Cons x xs)
  obtain k v where x: "x = (k, v)" by (cases x)
  from Cons.prems x have d: "distinct (map fst xs)" and nk: "map_of xs k = None"
    by (auto simp: map_of_eq_None_iff)
  from Cons.IH [OF d, of "field_step F x cfg"] nk x show ?case
    by (simp add: Description_step split: option.splits)
qed

lemma Vmid_step: "Vmid (field_step F kv cfg) = Vmid cfg"
  by (simp add: field_step_def)

lemma fold_Vmid: "Vmid (fold (field_step F) xs cfg) = Vmid cfg"
  by (induction xs arbitrary: cfg) (simp_all add: Vmid_step)

lemma Raw_step:
  "map_of (Raw (field_step F (k, v) cfg)) k' =
     (if k \<in> typed_keys then map_of (Raw cfg) k'
      else if k' = k then Some (fmt_v F v) else map_of (Raw cfg) k')"
  by (simp add: field_step_def typed_keys_def update_conv')

lemma fold_Raw:
  "distinct (map fst xs) \<Longrightarrow>
     map_of (Raw (fold (field_step F) xs cfg)) k'
       = (if k' \<in> typed_keys then map_of (Raw cfg) k'
          else case map_of xs k' of None \<Rightarrow> map_of (Raw cfg) k' | Some v \<Rightarrow> Some (fmt_v F v))"
proof (induction xs arbitrary: cfg)
  case Nil
  then show ?case by simp
next
  case (Cons x xs)
  obtain k v where x: "x = (k, v)" by (cases x)
  from Cons.prems x have d: "distinct (map fst xs)" and nk: "map_of xs k = None"
    by (auto simp: map_of_eq_None_iff)
  from Cons.IH [OF d, of "field_step F x cfg"] nk x show ?case
    by (simp add: Raw_step split: option.splits)
qed

lemma Parse_order:
  assumes "distinct (map fst xs)" and "distinct (map fst ys)" and "set ys = set xs"
  shows "same_config (ParseQemuVmConfig F xs) (ParseQemuVmConfig F ys)"
proof -
  from assms have m: "map_of ys = map_of xs"
    by (simp add: map_of_inject_set)
  have "map_of (Raw (fold (field_step F) xs newConfig)) = map_of (Raw (fold (field_step F) ys newConfig))"
    by (rule ext) (simp add: fold_Raw [OF assms(1)] fold_Raw [OF assms(2)] m)
  then show ?thesis
    unfolding same_config_def Parse_fold
    by (simp add: fold_Name fold_MemoryMB fold_Sockets fold_Cores fold_Description fold_Vmid
          assms(1) assms(2) m)
qed

text \<open>
  C10: when \<^verbatim>\<open>do\<close> has decoded a map \<open>raw\<close> for \<^verbatim>\<open>GetVMConfig\<close>, the loop inlined
  there returns the configuration that \<^verbatim>\<open>ParseQemuVmConfig\<close> returns for the same map,
  and this also when the two loops range over the map in different orders (\<open>raw'\<close> is the
  same map in another order): the typed fields are equal and \<open>Raw\<close> has the same entries.
\<close>

theorem GetVMConfig_loop_is_ParseQemuVmConfig:
  assumes "do J E c ''GET'' (apiNodesPath @ ''/'' @ PathEscape node @ ''/qemu/'' @ itoa vmid @ ''/config'')
             None [] False (Some None) = ((None, out), c', sent)"
    and "raw = (case out of Some (Some m) \<Rightarrow> m | _ \<Rightarrow> [])"
    and "distinct (map fst raw)" and "distinct (map fst raw')" and "set raw' = set raw"
  shows "GetVMConfig J F E c node vmid = ((Some (ParseQemuVmConfig F raw), None), c', sent)
       \<and> same_config (ParseQemuVmConfig F raw) (ParseQemuVmConfig F raw')"
proof -
  have "GetVMConfig J F E c node vmid = ((Some (ParseQemuVmConfig F raw), None), c', sent)"
    using assms(1,2) by (simp add: GetVMConfig_def ParseQemuVmConfig_def)
  moreover have "same_config (ParseQemuVmConfig F raw) (ParseQemuVmConfig F raw')"
    using assms(3,4,5) by (rule Parse_order)
  ultimately show ?thesis by simp
qed

theorem GetVMConfig_loop_is_ParseQemuVmConfig_witness:
  "distinct (map fst [(''name'', AString ''vm1''), (''cores'', AString ''2''),
                      (''net0'', AString ''virtio'') :: string \<times> unit any])
   \<and> set [(''net0'', AString ''virtio''), (''name'', AString ''vm1''), (''cores'', AString ''2'')]
       = set [(''name'', AString ''vm1''), (''cores'', AString ''2''),
              (''net0'', AString ''virtio'') :: string \<times> unit any]
   \<and> fst (GetVMConfig (encoding_json no_numbers) no_numbers
            (sample_env (answer 200
               ''{\"data\": {\"name\": \"vm1\", \"cores\": \"2\", \"net0\": \"virtio\"}}''))
            (sample_client AuthToken) ''pve'' 100)
       = (Some \<lparr>Name = ''vm1'', Vmid = [], MemoryMB = [], Sockets = [], Cores = ''2'',
                Description = [], Raw = [(''net0'', ''virtio'')]\<rparr>, None)
   \<and> same_config
        \<lparr>Name = ''vm1'', Vmid = [], MemoryMB = [], Sockets = [], Cores = ''2'',
          Description = [], Raw = [(''net0'', ''virtio'')]\<rparr>
        (ParseQemuVmConfig no_numbers
           [(''net0'', AString ''virtio''), (''name'', AString ''vm1''), (''cores'', AString ''2'')])"
proof -
  let ?E = "sample_env (answer 200
               ''{\"data\": {\"name\": \"vm1\", \"cores\": \"2\", \"net0\": \"virtio\"}}'')"
  let ?raw = "[(''name'', AString ''vm1''), (''cores'', AString ''2''),
               (''net0'', AString ''virtio'') :: string \<times> unit any]"
  let ?raw' = "[(''net0'', AString ''virtio''), (''name'', AString ''vm1''),
                (''cores'', AString ''2'') :: string \<times> unit any]"
  let ?req = "\<lparr>Method = ''GET'', Url = ''https://pve:8006/api2/json/nodes/pve/qemu/100/config'',
               Header = [(''Authorization'', ''PVEAPIToken=root@pam=secret''),
                         (''Accept'', ''application/json'')],
               ReqBody = None\<rparr>"
  have h1: "do (encoding_json no_numbers) ?E (sample_client AuthToken) ''GET''
              (apiNodesPath @ ''/'' @ PathEscape ''pve'' @ ''/qemu/'' @ itoa 100 @ ''/config'')
              None [] False (Some None)
            = ((None, Some (Some ?raw)), sample_client AuthToken, [?req])"
    by code_simp
  have h2: "?raw = (case Some (Some ?raw) of Some (Some m) \<Rightarrow> m | _ \<Rightarrow> [])"
    by simp
  have h3: "distinct (map fst ?raw)" by simp
  have h4: "distinct (map fst ?raw')" by simp
  have h5: "set ?raw' = set ?raw" by auto
  have p: "ParseQemuVmConfig no_numbers ?raw
           = \<lparr>Name = ''vm1'', Vmid = [], MemoryMB = [], Sockets = [], Cores = ''2'',
              Description = [], Raw = [(''net0'', ''virtio'')]\<rparr>"
    by code_simp
  from GetVMConfig_loop_is_ParseQemuVmConfig [OF h1 h2 h3 h4 h5, of no_numbers]
  show ?thesis using h3 h5 p by simp
qed

end
